theory Spec2Isabelle
  imports Main
begin

section \<open>Python values\<close>

text \<open>
  The exceptions the modelled code can raise. \<open>NotAString\<close> is no Python exception:
  it marks the one place where \<open>_trace_value\<close> hands back an object that is not a
  \<open>str\<close> (a \<open>_VarWrap\<close> around a non-string), for which the model has no text.
\<close>

datatype error =
  IndexError | KeyError | TypeError | AttributeError | ValueError | RecursionError | NotAString

text \<open>
  A \<open>dis.Instruction\<close>, reduced to the two fields the code reads, and the three
  dictionaries of \<open>inspect.ClosureVars\<close> the code reads (their keys are names).
\<close>

datatype 'v instruction = Instruction (opname: string) (argval: 'v)

datatype 'v closure_vars =
  ClosureVars (nonlocals: "(string \<times> 'v) list") (globals: "(string \<times> 'v) list")
    (builtins: "(string \<times> 'v) list")

text \<open>
  An instance of a user class. The three attributes that the \<open>traceable\<close> wrapper
  stores on an instance are typed fields (\<open>None\<close>: the attribute is absent, so
  \<open>hasattr\<close> is false); \<open>attrs\<close> holds the other entries of \<open>__dict__\<close>.
  \<open>cls_id\<close> is \<open>id(inp.__class__)\<close>. Attributes of these three names on the class
  itself are not modelled.
\<close>

datatype 'v pyobject =
  PyObject (cls_module: string) (cls_qualname: string) (cls_id: nat)
    (fe_state_whitelist: "string list option") (fe_state_blacklist: "string list option")
    (fe_traceability_summary: "string option") (attrs: "(string \<times> 'v) list")

text \<open>
  The values the tracer and the reconstructor handle. The named tuples keep the field
  order of the source: \<open>_Command(left, right, command)\<close>,
  \<open>_Condition(left, right, condition)\<close>, \<open>_BoundFn(func, args)\<close>, \<open>_VarWrap(var)\<close>.
  \<open>PLambda\<close> is a function whose \<open>__name__\<close> is \<open><lambda>\<close>, with its
  \<open>co_varnames\<close>, the instruction list from \<open>dis.get_instructions\<close> and its
  \<open>inspect.getclosurevars\<close>; \<open>PFunction\<close> and \<open>PClass\<close> carry
  \<open>__module__\<close> and \<open>__qualname__\<close>; \<open>PMethod\<close> carries \<open>__name__\<close> and
  \<open>__self__\<close>; \<open>PModel\<close> is a \<open>tf.keras.Model\<close> or \<open>torch.nn.Module\<close> with its
  \<open>model_name\<close> (if any) and its \<open>id\<close>, taken not to be wrapped by
  \<open>traceable\<close>. Floats, tensors and arrays are left out: their text is floating-point
  formatting.
\<close>

datatype pyval =
    PNone
  | PBool bool
  | PInt int
  | PStr string
  | PList "pyval list"
  | PTuple "pyval list"
  | PSet "pyval list"
  | PDict "(pyval \<times> pyval) list"
  | VarWrap pyval
  | Command pyval pyval string
  | Condition pyval pyval pyval
  | BoundFn pyval pyval
  | BoundArguments "(string \<times> pyval) list"
  | PFunction string string
  | PClass string string
  | PMethod string pyval
  | PLambda "string list" "pyval instruction list" "pyval closure_vars"
  | PModel "string option" nat
  | PObject "pyval pyobject"

text \<open>
  The collaborators outside the repository: \<open>hasattr(v, '__call__')\<close>,
  \<open>getattr(obj, name)\<close>, and \<open>inspect.signature(f).bind(*args, **kwargs)\<close> followed by
  \<open>apply_defaults()\<close>, which yields the ordered \<open>arguments\<close> mapping or raises.
\<close>

record ext =
  has_call :: "pyval \<Rightarrow> bool"
  getattr :: "pyval \<Rightarrow> pyval \<Rightarrow> error + pyval"
  signature_bind :: "pyval \<Rightarrow> pyval list \<Rightarrow> (pyval \<times> pyval) list \<Rightarrow> error + (string \<times> pyval) list"

subsection \<open>Built-in operations on values\<close>

text \<open>
  \<open>hash(v)\<close> succeeds (Python 3.7): lists, sets, dicts and \<open>BoundArguments\<close> are
  unhashable, a tuple or named tuple is hashable when its items are, a bound method when
  its receiver is; instances of user classes are taken to keep the hash of \<open>object\<close>.
\<close>

fun hashable :: "pyval \<Rightarrow> bool" where
  "hashable (PList xs) = False"
| "hashable (PSet xs) = False"
| "hashable (PDict kvs) = False"
| "hashable (BoundArguments kvs) = False"
| "hashable (PTuple xs) = list_all hashable xs"
| "hashable (VarWrap v) = hashable v"
| "hashable (Command l r c) = (hashable l \<and> hashable r)"
| "hashable (Condition l r c) = (hashable l \<and> hashable r \<and> hashable c)"
| "hashable (BoundFn f a) = (hashable f \<and> hashable a)"
| "hashable (PMethod n s) = hashable s"
| "hashable v = True"

text \<open>
  \<open>d[k] = v\<close> on a dict kept as an association list in insertion order: an existing key
  keeps its place. Keys are compared with HOL equality; Python's equalities across types
  (\<open>True == 1\<close>, a named tuple equal to the plain tuple of its fields) are not modelled.
\<close>

fun dict_update :: "'k \<Rightarrow> 'v \<Rightarrow> ('k \<times> 'v) list \<Rightarrow> ('k \<times> 'v) list" where
  "dict_update k v [] = [(k, v)]"
| "dict_update k v (p # ps) = (if fst p = k then (fst p, v) # ps else p # dict_update k v ps)"

definition dict_set :: "(pyval \<times> pyval) list \<Rightarrow> pyval \<Rightarrow> pyval \<Rightarrow> error + (pyval \<times> pyval) list" where
  "dict_set d k v = (if hashable k then Inr (dict_update k v d) else Inl TypeError)"

fun dict_of_pairs :: "(pyval \<times> pyval) list \<Rightarrow> (pyval \<times> pyval) list \<Rightarrow> error + (pyval \<times> pyval) list" where
  "dict_of_pairs [] d = Inr d"
| "dict_of_pairs ((k, v) # kvs) d =
     (case dict_set d k v of Inl e \<Rightarrow> Inl e | Inr d' \<Rightarrow> dict_of_pairs kvs d')"

text \<open>
  \<open>set(arg)\<close>: the items must be hashable; the order of a set's items is an
  implementation matter, the model keeps the list order without duplicates.
\<close>

definition make_set :: "pyval list \<Rightarrow> error + pyval" where
  "make_set xs = (if list_all hashable xs then Inr (PSet (remdups xs)) else Inl TypeError)"

text \<open>\<open>range(n)\<close>: the number of rounds; \<open>bool\<close> is an \<open>int\<close> in Python.\<close>

fun range_len :: "pyval \<Rightarrow> error + nat" where
  "range_len (PInt i) = Inr (nat i)"
| "range_len (PBool b) = Inr (if b then 1 else 0)"
| "range_len v = Inl TypeError"

text \<open>
  The items that iterating a value yields (\<open>zip(keys, vals)\<close>), and \<open>reversed(v)\<close>, which
  needs a sequence (in Python 3.7 neither a set nor a dict). Instances of user classes are
  taken to define neither \<open>__iter__\<close> nor \<open>__reversed__\<close>.
\<close>

fun iter_items :: "pyval \<Rightarrow> error + pyval list" where
  "iter_items (PList xs) = Inr xs"
| "iter_items (PTuple xs) = Inr xs"
| "iter_items (PSet xs) = Inr xs"
| "iter_items (PDict kvs) = Inr (map fst kvs)"
| "iter_items (PStr s) = Inr (map (\<lambda>c. PStr [c]) s)"
| "iter_items (VarWrap v) = Inr [v]"
| "iter_items (Command l r c) = Inr [l, r, PStr c]"
| "iter_items (Condition l r c) = Inr [l, r, c]"
| "iter_items (BoundFn f a) = Inr [f, a]"
| "iter_items v = Inl TypeError"

fun reversed_items :: "pyval \<Rightarrow> error + pyval list" where
  "reversed_items (PSet xs) = Inl TypeError"
| "reversed_items (PDict kvs) = Inl TypeError"
| "reversed_items v = (case iter_items v of Inl e \<Rightarrow> Inl e | Inr xs \<Rightarrow> Inr (rev xs))"

text \<open>\<open>xs[i]\<close> and \<open>xs.pop(i)\<close> of a Python list: a negative index counts from the end.\<close>

definition list_index :: "'a list \<Rightarrow> int \<Rightarrow> error + 'a" where
  "list_index xs i =
     (let n = int (length xs); j = (if i < 0 then i + n else i)
      in if 0 \<le> j \<and> j < n then Inr (xs ! nat j) else Inl IndexError)"

definition list_pop_at :: "'a list \<Rightarrow> int \<Rightarrow> error + 'a list" where
  "list_pop_at xs i =
     (let n = int (length xs); j = (if i < 0 then i + n else i)
      in if 0 \<le> j \<and> j < n then Inr (take (nat j) xs @ drop (Suc (nat j)) xs)
         else Inl IndexError)"

section \<open>The reconstructor \<open>_parse_instructions\<close>\<close>

definition CommandTable :: "(string \<times> string) list" where
  "CommandTable =
    [(''POWER'', ''**''), (''MULTIPLY'', ''*''), (''MATRIX_MULTIPLY'', ''@''),
     (''FLOOR_DIVIDE'', ''//''), (''TRUE_DIVIDE'', ''/''), (''MODULO'', ''%''),
     (''ADD'', ''+''), (''SUBTRACT'', ''-''), (''SUBSCR'', ''[]''), (''LSHIFT'', ''<<''),
     (''RSHIFT'', ''>>''), (''AND'', ''&''), (''XOR'', ''^''), (''OR'', ''|''),
     (''>'', ''>''), (''<'', ''<''), (''=='', ''==''), (''!='', ''!=''), (''<='', ''<=''),
     (''>='', ''>='')]"

text \<open>\<open>command in _CommandTable\<close> and \<open>_CommandTable[command]\<close>: the key is hashed first.\<close>

definition table_lookup :: "pyval \<Rightarrow> error + string option" where
  "table_lookup command =
     (if hashable command
      then Inr (case command of PStr s \<Rightarrow> map_of CommandTable s | _ \<Rightarrow> None)
      else Inl TypeError)"

text \<open>
  Modelled from the spec: \<open>strip_prefix\<close> of \<open>fastestimator.util.util\<close> is not among
  the sources. The spec has the mnemonic of a binary or in-place opcode looked up in the
  Operator Table, whose keys are the opcode names without \<open>BINARY_\<close> or \<open>INPLACE_\<close>:
  the function removes the prefix when the target starts with it.
\<close>

definition strip_prefix :: "string \<Rightarrow> string \<Rightarrow> string" where
  "strip_prefix target pre =
     (if take (length pre) target = pre then drop (length pre) target else target)"

definition startswith :: "string \<Rightarrow> string \<Rightarrow> bool" where
  "startswith s pre = (take (length pre) s = pre)"

text \<open>
  \<open>closure_vars.nonlocals.get(name, closure_vars.globals.get(name,
  closure_vars.builtins.get(name, None)))\<close>: an unhashable name raises.
\<close>

definition resolve :: "pyval closure_vars \<Rightarrow> pyval \<Rightarrow> error + pyval" where
  "resolve cv name =
     (if \<not> hashable name then Inl TypeError
      else Inr (case name of
          PStr s \<Rightarrow>
            (case map_of (nonlocals cv) s of Some v \<Rightarrow> v
             | None \<Rightarrow>
                (case map_of (globals cv) s of Some v \<Rightarrow> v
                 | None \<Rightarrow> (case map_of (builtins cv) s of Some v \<Rightarrow> v | None \<Rightarrow> PNone)))
        | _ \<Rightarrow> PNone))"

definition deref_is_callable :: "ext \<Rightarrow> pyval instruction \<Rightarrow> pyval closure_vars \<Rightarrow> error + bool" where
  "deref_is_callable ex instruction cv =
     (case resolve cv (argval instruction) of Inl e \<Rightarrow> Inl e | Inr deref \<Rightarrow> Inr (has_call ex deref))"

subsection \<open>The state of the walk\<close>

text \<open>
  Lists of instructions are objects in a store: \<open>cells\<close> maps an address to the list's
  items, addresses below \<open>next_free\<close> are allocated. The walk's state holds the store,
  the address the local variable \<open>instructions\<close> refers to, the two local stacks and the
  index. A pending condition is the triple (left, right, condition).
\<close>

record store =
  cells :: "nat \<Rightarrow> pyval instruction list"
  next_free :: nat

definition alloc :: "store \<Rightarrow> pyval instruction list \<Rightarrow> nat \<times> store" where
  "alloc h xs = (next_free h, h\<lparr>cells := (cells h)(next_free h := xs), next_free := Suc (next_free h)\<rparr>)"

record pstate =
  mem :: store
  instructions :: nat
  conditions :: "(pyval \<times> pyval \<times> pyval) list"
  args :: "pyval list"
  idx :: int

definition working :: "pstate \<Rightarrow> pyval instruction list" where
  "working st = cells (mem st) (instructions st)"

text \<open>
  A statement of the loop body either raises or yields a value, and leaves a state in
  both cases (what it changed before raising stays changed).
\<close>

type_synonym 'a parse = "pstate \<Rightarrow> (error + 'a) \<times> pstate"

definition ret :: "'a \<Rightarrow> 'a parse" where
  "ret a st = (Inr a, st)"

definition lift :: "error + 'a \<Rightarrow> 'a parse" where
  "lift r st = (r, st)"

definition and_then :: "'a parse \<Rightarrow> ('a \<Rightarrow> 'b parse) \<Rightarrow> 'b parse" where
  "and_then m f st = (case m st of (Inl e, st') \<Rightarrow> (Inl e, st') | (Inr a, st') \<Rightarrow> f a st')"

definition get_state :: "pstate parse" where
  "get_state st = (Inr st, st)"

definition instructions_at :: "int \<Rightarrow> pyval instruction parse" where
  "instructions_at i st = (list_index (working st) i, st)"

definition instructions_pop :: "int \<Rightarrow> unit parse" where
  "instructions_pop i st =
     (case list_pop_at (working st) i of
        Inl e \<Rightarrow> (Inl e, st)
      | Inr xs \<Rightarrow> (Inr (), st\<lparr>mem := (mem st)\<lparr>cells := (cells (mem st))(instructions st := xs)\<rparr>\<rparr>))"

definition idx_add :: "int \<Rightarrow> unit parse" where
  "idx_add k st = (Inr (), st\<lparr>idx := idx st + k\<rparr>)"

text \<open>\<open>instructions.pop(idx - 1); idx -= 1\<close>\<close>

definition pop_prev :: "unit parse" where
  "pop_prev st = and_then (instructions_pop (idx st - 1)) (\<lambda>_. idx_add (- 1)) st"

definition args_pop :: "pyval parse" where
  "args_pop st =
     (if args st = [] then (Inl IndexError, st)
      else (Inr (last (args st)), st\<lparr>args := butlast (args st)\<rparr>))"

definition args_append :: "pyval \<Rightarrow> unit parse" where
  "args_append v st = (Inr (), st\<lparr>args := args st @ [v]\<rparr>)"

definition conditions_pop :: "(pyval \<times> pyval \<times> pyval) parse" where
  "conditions_pop st =
     (if conditions st = [] then (Inl IndexError, st)
      else (Inr (last (conditions st)), st\<lparr>conditions := butlast (conditions st)\<rparr>))"

definition conditions_append :: "pyval \<times> pyval \<times> pyval \<Rightarrow> unit parse" where
  "conditions_append c st = (Inr (), st\<lparr>conditions := conditions st @ [c]\<rparr>)"

subsection \<open>The loop body\<close>

text \<open>How one round of the \<open>while\<close> loop ends: at \<open>idx += 1\<close>, at \<open>break\<close>, or at \<open>return None\<close>.\<close>

datatype flow = Next | Break | ReturnNone

text \<open>\<open>for i in range(n): arg.appendleft(args.pop()); instructions.pop(idx - 1); idx -= 1\<close>\<close>

primrec gather :: "nat \<Rightarrow> pyval list \<Rightarrow> pyval list parse" where
  "gather 0 acc = ret acc"
| "gather (Suc n) acc = and_then args_pop (\<lambda>v. and_then pop_prev (\<lambda>_. gather n (v # acc)))"

text \<open>The rounds of the \<open>BUILD_MAP\<close> loop: the value is popped before its key.\<close>

primrec build_map :: "nat \<Rightarrow> (pyval \<times> pyval) list \<Rightarrow> (pyval \<times> pyval) list parse" where
  "build_map 0 arg = ret arg"
| "build_map (Suc n) arg =
     and_then args_pop (\<lambda>v.
     and_then args_pop (\<lambda>k.
     and_then pop_prev (\<lambda>_.
     and_then pop_prev (\<lambda>_.
     and_then (lift (dict_set arg k v)) (\<lambda>arg'. build_map n arg')))))"

text \<open>\<open>for name in reversed(kwarg_names): kwargs[name] = fn_args.pop()\<close>, on the reversed names.\<close>

fun bind_kwargs ::
  "pyval list \<Rightarrow> pyval list \<Rightarrow> (pyval \<times> pyval) list \<Rightarrow> error + pyval list \<times> (pyval \<times> pyval) list" where
  "bind_kwargs [] fn_args kwargs = Inr (fn_args, kwargs)"
| "bind_kwargs (name # names) fn_args kwargs =
     (if fn_args = [] then Inl IndexError
      else case dict_set kwargs name (last fn_args) of
             Inl e \<Rightarrow> Inl e
           | Inr kwargs' \<Rightarrow> bind_kwargs names (butlast fn_args) kwargs')"

text \<open>
  The look-ahead of a function reference: while the next instruction is a
  \<open>LOAD_METHOD\<close> or \<open>LOAD_ATTR\<close>, fold it into the function and remove it.
\<close>

function fold_attrs :: "ext \<Rightarrow> pyval \<Rightarrow> pyval parse" where
  "fold_attrs ex func st =
     (if idx st + 1 < int (length (working st)) then
        (case list_index (working st) (idx st + 1) of
           Inl e \<Rightarrow> (Inl e, st)
         | Inr nxt \<Rightarrow>
             if opname nxt \<in> set [''LOAD_METHOD'', ''LOAD_ATTR''] then
               (case getattr ex func (argval nxt) of
                  Inl e \<Rightarrow> (Inl e, st)
                | Inr func' \<Rightarrow>
                    (case instructions_pop (idx st + 1) st of
                       (Inl e, st') \<Rightarrow> (Inl e, st')
                     | (Inr u, st') \<Rightarrow> fold_attrs ex func' st'))
             else (Inr func, st))
      else (Inr func, st))"
  by pat_completeness auto
termination
  by (relation "measure (\<lambda>(ex, func, st). length (working st))")
    (auto simp: instructions_pop_def list_pop_at_def working_def Let_def split: if_splits)

definition step_return :: "flow parse" where
  "step_return =
     and_then get_state (\<lambda>s.
       if conditions s \<noteq> [] then
         and_then conditions_pop (\<lambda>current_condition.
         and_then args_pop (\<lambda>arg.
         and_then pop_prev (\<lambda>_.
           case current_condition of (left, right, condition) \<Rightarrow>
             if left = PNone then
               and_then (conditions_append (arg, PNone, condition)) (\<lambda>_.
               and_then pop_prev (\<lambda>_. ret Next))
             else
               and_then (args_append (Condition left arg condition)) (\<lambda>_.
               and_then get_state (\<lambda>s'.
                 if conditions s' \<noteq> [] then and_then (idx_add (- 1)) (\<lambda>_. ret Next)
                 else ret Next)))))
       else ret Break)"

definition step_build_iterable :: "pyval instruction \<Rightarrow> flow parse" where
  "step_build_iterable instruction =
     and_then (lift (range_len (argval instruction))) (\<lambda>n_args.
     and_then (gather n_args []) (\<lambda>arg.
     and_then (lift (if opname instruction = ''BUILD_TUPLE'' then Inr (PTuple arg)
                     else if opname instruction = ''BUILD_SET'' then make_set arg
                     else Inr (PList arg))) (\<lambda>v.
     and_then (args_append v) (\<lambda>_. ret Next))))"

definition step_build_map :: "pyval instruction \<Rightarrow> flow parse" where
  "step_build_map instruction =
     and_then (lift (range_len (argval instruction))) (\<lambda>n_keys.
     and_then (build_map n_keys []) (\<lambda>arg.
     and_then (args_append (PDict arg)) (\<lambda>_. ret Next)))"

definition step_build_const_key_map :: "pyval instruction \<Rightarrow> flow parse" where
  "step_build_const_key_map instruction =
     and_then args_pop (\<lambda>keys.
     and_then pop_prev (\<lambda>_.
     and_then (lift (range_len (argval instruction))) (\<lambda>n.
     and_then (gather n []) (\<lambda>vals.
     and_then (lift (case iter_items keys of
                       Inl e \<Rightarrow> Inl e
                     | Inr ks \<Rightarrow> dict_of_pairs (zip ks vals) [])) (\<lambda>d.
     and_then (args_append (PDict d)) (\<lambda>_. ret Next))))))"

text \<open>
  The test of the \<open>LOAD_DEREF\<close> branch, with Python's short-circuit order:
  \<open>opname == 'LOAD_DEREF' and not _deref_is_callable(...) and
  not instructions[idx + 1].opname in ('LOAD_METHOD', 'LOAD_ATTR')\<close>.
\<close>

definition is_plain_deref :: "ext \<Rightarrow> pyval closure_vars \<Rightarrow> pyval instruction \<Rightarrow> bool parse" where
  "is_plain_deref ex cv instruction =
     (if opname instruction \<noteq> ''LOAD_DEREF'' then ret False
      else and_then (lift (deref_is_callable ex instruction cv)) (\<lambda>callable.
        if callable then ret False
        else and_then get_state (\<lambda>s.
             and_then (instructions_at (idx s + 1)) (\<lambda>nxt.
               ret (\<not> opname nxt \<in> set [''LOAD_METHOD'', ''LOAD_ATTR''])))))"

definition step_function_ref :: "ext \<Rightarrow> pyval closure_vars \<Rightarrow> flow parse" where
  "step_function_ref ex cv =
     and_then get_state (\<lambda>s.
     and_then (instructions_at (idx s)) (\<lambda>instruction.
     and_then (lift (resolve cv (argval instruction))) (\<lambda>func.
     and_then (fold_attrs ex func) (\<lambda>func'.
     and_then (args_append func') (\<lambda>_. ret Next)))))"

definition step_call :: "ext \<Rightarrow> pyval instruction \<Rightarrow> flow parse" where
  "step_call ex instruction =
     and_then (if opname instruction = ''CALL_FUNCTION_KW''
               then and_then args_pop (\<lambda>names. and_then pop_prev (\<lambda>_. ret names))
               else ret (PList [])) (\<lambda>kwarg_names.
     and_then (lift (range_len (argval instruction))) (\<lambda>n_args.
     and_then (gather n_args []) (\<lambda>fn_args.
     and_then (lift (case reversed_items kwarg_names of
                       Inl e \<Rightarrow> Inl e
                     | Inr names \<Rightarrow> bind_kwargs names fn_args [])) (\<lambda>(fn_args', kwargs).
     and_then args_pop (\<lambda>func.
     and_then pop_prev (\<lambda>_.
     and_then (lift (signature_bind ex func fn_args' kwargs)) (\<lambda>bound_args.
     and_then (args_append (BoundFn func (BoundArguments bound_args))) (\<lambda>_. ret Next))))))))"

definition step_command :: "pyval instruction \<Rightarrow> flow parse" where
  "step_command instruction =
     (let command = (if opname instruction = ''COMPARE_OP'' then argval instruction
                     else PStr (strip_prefix (strip_prefix (opname instruction) ''BINARY_'') ''INPLACE_''))
      in and_then (lift (table_lookup command)) (\<lambda>found.
           case found of
             None \<Rightarrow> ret ReturnNone
           | Some display \<Rightarrow>
               and_then args_pop (\<lambda>right.
               and_then pop_prev (\<lambda>_.
               and_then args_pop (\<lambda>left.
               and_then pop_prev (\<lambda>_.
               and_then (args_append (Command left right display)) (\<lambda>_. ret Next)))))))"

definition step_pop_jump :: "flow parse" where
  "step_pop_jump =
     and_then args_pop (\<lambda>condition.
     and_then (conditions_append (PNone, PNone, condition)) (\<lambda>_.
     and_then pop_prev (\<lambda>_. ret Next)))"

text \<open>The branches of the \<open>if\<close>/\<open>elif\<close> chain after \<open>RETURN_VALUE\<close>, in the source's order.\<close>

definition step_other :: "ext \<Rightarrow> pyval closure_vars \<Rightarrow> pyval instruction \<Rightarrow> flow parse" where
  "step_other ex cv instruction =
     (if opname instruction = ''LOAD_CONST'' then
        and_then (args_append (argval instruction)) (\<lambda>_. ret Next)
      else if opname instruction = ''LOAD_FAST'' then
        and_then (args_append (VarWrap (argval instruction))) (\<lambda>_. ret Next)
      else if opname instruction \<in> set [''BUILD_LIST'', ''BUILD_TUPLE'', ''BUILD_SET''] then
        step_build_iterable instruction
      else if opname instruction = ''BUILD_MAP'' then step_build_map instruction
      else if opname instruction = ''BUILD_CONST_KEY_MAP'' then step_build_const_key_map instruction
      else and_then (is_plain_deref ex cv instruction) (\<lambda>plain.
        if plain then
          and_then (lift (resolve cv (argval instruction))) (\<lambda>v.
          and_then (args_append v) (\<lambda>_. ret Next))
        else if opname instruction \<in> set [''LOAD_METHOD'', ''LOAD_ATTR'', ''LOAD_GLOBAL'', ''LOAD_DEREF''] then
          step_function_ref ex cv
        else if opname instruction \<in> set [''CALL_METHOD'', ''CALL_FUNCTION'', ''CALL_FUNCTION_KW''] then
          step_call ex instruction
        else if startswith (opname instruction) ''BINARY_'' \<or> startswith (opname instruction) ''INPLACE_''
                \<or> opname instruction = ''COMPARE_OP'' then
          step_command instruction
        else if opname instruction = ''POP_JUMP_IF_FALSE'' then step_pop_jump
        else ret ReturnNone))"

definition step :: "ext \<Rightarrow> pyval closure_vars \<Rightarrow> flow parse" where
  "step ex cv =
     and_then get_state (\<lambda>s.
     and_then (instructions_at (idx s)) (\<lambda>instruction.
       if opname instruction = ''RETURN_VALUE'' then step_return
       else step_other ex cv instruction))"

text \<open>The statements after the loop: \<open>None\<close> unless one value and no condition are left.\<close>

definition finish :: "pstate \<Rightarrow> pyval" where
  "finish st = (if conditions st \<noteq> [] \<or> length (args st) \<noteq> 1 then PNone else args st ! 0)"

subsection \<open>The loop and the function\<close>

text \<open>
  The \<open>while\<close> loop. It terminates on every state (proved below): a round that reaches
  \<open>idx += 1\<close> either brings the index nearer to the end of the working list or, keeping
  that distance, shortens the list.
\<close>

function parse_loop :: "ext \<Rightarrow> pyval closure_vars \<Rightarrow> pstate \<Rightarrow> (error + pyval) \<times> pstate" where
  "parse_loop ex cv st =
     (if idx st < int (length (working st)) then
        (case step ex cv st of
           (Inl e, st') \<Rightarrow> (Inl e, st')
         | (Inr ReturnNone, st') \<Rightarrow> (Inr PNone, st')
         | (Inr Break, st') \<Rightarrow> (Inr (finish st'), st')
         | (Inr Next, st') \<Rightarrow> parse_loop ex cv (st'\<lparr>idx := idx st' + 1\<rparr>))
      else (Inr (finish st), st))"
  by pat_completeness auto

text \<open>
  \<open>_parse_instructions(closure_vars, instructions)\<close>, called with the address of the
  caller's list: line 170 allocates the shallow copy, which the local variable refers to
  from then on. The result is the value returned (\<open>PNone\<close> is Python's \<open>None\<close>) or the
  exception raised, with the store the call leaves behind.
\<close>

definition parse_instructions :: "ext \<Rightarrow> pyval closure_vars \<Rightarrow> store \<Rightarrow> nat \<Rightarrow> (error + pyval) \<times> store" where
  "parse_instructions ex cv h a =
     (case alloc h (cells h a) of
        (b, h1) \<Rightarrow>
          (case parse_loop ex cv \<lparr>mem = h1, instructions = b, conditions = [], args = [], idx = 0\<rparr> of
             (r, st) \<Rightarrow> (r, mem st)))"

definition empty_store :: store where
  "empty_store = \<lparr>cells = (\<lambda>r. []), next_free = 0\<rparr>"

section \<open>The value tracer \<open>_trace_value\<close>\<close>

definition squote :: string where
  "squote = [CHR 0x27]"

text \<open>The decimal text of an integer, as \<open>f"{inp}"\<close> gives it.\<close>

fun show_nat :: "nat \<Rightarrow> string" where
  "show_nat n =
     (if n < 10 then [''0123456789'' ! n] else show_nat (n div 10) @ [''0123456789'' ! (n mod 10)])"

definition show_int :: "int \<Rightarrow> string" where
  "show_int i = (if i < 0 then ''-'' @ show_nat (nat (- i)) else show_nat (nat i))"

text \<open>\<open>sep.join(xs)\<close>\<close>

fun join :: "string \<Rightarrow> string list \<Rightarrow> string" where
  "join sep [] = []"
| "join sep [x] = x"
| "join sep (x # y # ys) = x @ sep @ join sep (y # ys)"

text \<open>A computation that stops at the first exception.\<close>

definition on_ok :: "error + 'a \<Rightarrow> ('a \<Rightarrow> error + 'b) \<Rightarrow> error + 'b" where
  "on_ok r f = (case r of Inl e \<Rightarrow> Inl e | Inr a \<Rightarrow> f a)"

fun map_results :: "('a \<Rightarrow> error + 'b) \<Rightarrow> 'a list \<Rightarrow> error + 'b list" where
  "map_results f [] = Inr []"
| "map_results f (x # xs) = on_ok (f x) (\<lambda>y. on_ok (map_results f xs) (\<lambda>ys. Inr (y # ys)))"

text \<open>
  \<open>str.join(", ", map(lambda x: "'{}'".format(x), var_names)) or 'no arguments'\<close>
\<close>

definition params_text :: "string list \<Rightarrow> string" where
  "params_text var_names =
     (let joined = join '', '' (map (\<lambda>x. squote @ x @ squote) var_names)
      in if joined = [] then ''no arguments'' else joined)"

definition id_str :: "bool \<Rightarrow> nat \<Rightarrow> string" where
  "id_str include_id ident = (if include_id then '' (id: '' @ show_nat ident @ '')'' else [])"

text \<open>
  Python bounds the depth of recursion: the first argument is the number of frames
  \<open>_trace_value\<close> may still use, and running out of them is the \<open>RecursionError\<close> the
  interpreter raises. The branches stand in the order of the source's \<open>isinstance\<close>
  tests; every value of the model meets exactly one of them first. An instance of a user
  class has a cached summary or falls to the last \<open>elif\<close> (the final \<open>else\<close> of
  the source needs an object without \<open>__class__\<close>, which Python 3 does not have). The
  list that the lambda branch builds from \<open>dis.get_instructions\<close> is allocated in a
  store of its own.
\<close>

fun trace_value :: "nat \<Rightarrow> ext \<Rightarrow> pyval \<Rightarrow> bool \<Rightarrow> bool \<Rightarrow> error + string" where
  "trace_value 0 ex inp wrap_str include_id = Inl RecursionError"
| "trace_value (Suc depth) ex inp wrap_str include_id =
     (case inp of
        PStr s \<Rightarrow> Inr (if wrap_str then squote @ s @ squote else s)
      | PObject obj \<Rightarrow>
          (case fe_traceability_summary obj of
             Some summary \<Rightarrow> Inr summary
           | None \<Rightarrow>
               Inr (''an instance of '' @ cls_module obj @ ''.'' @ cls_qualname obj
                    @ id_str include_id (cls_id obj)))
      | PNone \<Rightarrow> Inr ''None''
      | PBool b \<Rightarrow> Inr (if b then ''True'' else ''False'')
      | PInt i \<Rightarrow> Inr (show_int i)
      | PMethod name self \<Rightarrow>
          on_ok (trace_value depth ex self wrap_str include_id) (\<lambda>receiver.
            Inr (''the '' @ squote @ name @ squote @ '' method of ('' @ receiver @ '')''))
      | PFunction m q \<Rightarrow> Inr (m @ ''.'' @ q)
      | PClass m q \<Rightarrow> Inr (m @ ''.'' @ q)
      | PLambda var_names instrs closure \<Rightarrow>
          (case alloc empty_store instrs of
             (a, h) \<Rightarrow>
               on_ok (fst (parse_instructions ex closure h a)) (\<lambda>func_description.
                 if func_description = PNone then
                   Inr (''a lambda function passing '' @ params_text var_names)
                 else
                   on_ok (trace_value depth ex func_description wrap_str include_id) (\<lambda>d.
                     Inr (''a lambda function passing '' @ params_text var_names @ '' to: '' @ d))))
      | Command l r c \<Rightarrow>
          on_ok (trace_value depth ex l wrap_str include_id) (\<lambda>a.
          on_ok (trace_value depth ex r wrap_str include_id) (\<lambda>b.
            Inr (a @ '' '' @ c @ '' '' @ b)))
      | Condition l r c \<Rightarrow>
          on_ok (trace_value depth ex l wrap_str include_id) (\<lambda>a.
          on_ok (trace_value depth ex c wrap_str include_id) (\<lambda>p.
          on_ok (trace_value depth ex r wrap_str include_id) (\<lambda>b.
            Inr (a @ '' if '' @ p @ '' else '' @ b))))
      | BoundFn f a \<Rightarrow>
          on_ok (trace_value depth ex f wrap_str False) (\<lambda>x.
          on_ok (trace_value depth ex a False include_id) (\<lambda>y.
            Inr (x @ '' invoked with: '' @ y)))
      | BoundArguments kvs \<Rightarrow>
          trace_value depth ex (PDict (map (\<lambda>(k, v). (PStr k, v)) kvs)) False include_id
      | VarWrap v \<Rightarrow> (case v of PStr s \<Rightarrow> Inr s | _ \<Rightarrow> Inl NotAString)
      | PModel name ident \<Rightarrow>
          Inr (''a neural network model named '' @ squote
               @ (case name of Some n \<Rightarrow> n | None \<Rightarrow> ''<Unknown Model Name>'') @ squote
               @ id_str include_id ident)
      | PList xs \<Rightarrow>
          on_ok (map_results (\<lambda>x. trace_value depth ex x wrap_str include_id) xs) (\<lambda>ts.
            Inr (''['' @ join '', '' ts @ '']''))
      | PTuple xs \<Rightarrow>
          on_ok (map_results (\<lambda>x. trace_value depth ex x wrap_str include_id) xs) (\<lambda>ts.
            Inr (''('' @ join '', '' ts @ '')''))
      | PSet xs \<Rightarrow>
          on_ok (map_results (\<lambda>x. trace_value depth ex x wrap_str include_id) xs) (\<lambda>ts.
            Inr (''{'' @ join '', '' ts @ ''}''))
      | PDict kvs \<Rightarrow>
          on_ok (map_results (\<lambda>(k, v).
                   on_ok (trace_value depth ex k wrap_str include_id) (\<lambda>a.
                   on_ok (trace_value depth ex v True True) (\<lambda>b. Inr (a @ ''='' @ b)))) kvs) (\<lambda>ts.
            Inr (''{'' @ join '', '' ts @ ''}'')))"

section \<open>The construction-capture wrapper \<open>traceable\<close>\<close>

text \<open>The argument type \<open>Union[str, Tuple[str]]\<close> of \<open>whitelist\<close> and \<open>blacklist\<close>.\<close>

datatype str_or_tuple = Str string | Tup "string list"

definition as_tuple :: "str_or_tuple \<Rightarrow> string list" where
  "as_tuple x = (case x of Str s \<Rightarrow> [s] | Tup xs \<Rightarrow> xs)"

text \<open>
  What \<open>traceable\<close> returns is the closure \<open>make_traceable\<close>; the record holds the two
  variables it captures.
\<close>

record closure =
  whitelist :: "string list"
  blacklist :: "string list"

definition traceable :: "str_or_tuple \<Rightarrow> str_or_tuple \<Rightarrow> error + closure" where
  "traceable wl bl =
     (let whitelist = as_tuple wl; blacklist = as_tuple bl
      in if whitelist \<noteq> [] \<and> blacklist \<noteq> [] then Inl ValueError
         else Inr \<lparr>whitelist = whitelist, blacklist = blacklist\<rparr>)"

text \<open>
  The class handed to \<open>make_traceable\<close>: its identity, the function object of its
  \<open>__init__\<close> (for \<open>inspect.signature\<close>), what that \<open>__init__\<close> does to the instance,
  and the \<open>fe_summary\<close> and \<open>fe_state\<close> it already has, if any.
\<close>

record pyclass =
  c_module :: string
  c_qualname :: string
  c_id :: nat
  init_fn :: pyval
  base_init :: "pyval pyobject \<Rightarrow> pyval list \<Rightarrow> (pyval \<times> pyval) list \<Rightarrow> error + pyval pyobject"
  base_fe_summary :: "(pyval pyobject \<Rightarrow> error + string) option"
  base_fe_state :: "(pyval pyobject \<Rightarrow> error + (string \<times> pyval) list) option"

text \<open>
  The statements of \<open>init\<close> before \<open>base_init(self, *args, **kwargs)\<close>: the three
  \<open>hasattr\<close> guards. \<open>bound_args.pop('self')\<close> raises \<open>KeyError\<close> when the receiver
  has another name.
\<close>

definition init_capture ::
  "closure \<Rightarrow> pyval \<Rightarrow> nat \<Rightarrow> ext \<Rightarrow> pyval pyobject \<Rightarrow> pyval list \<Rightarrow> (pyval \<times> pyval) list
    \<Rightarrow> error + pyval pyobject" where
  "init_capture cl fn depth ex self call_args call_kwargs =
     (case self of PyObject m q i w b s d \<Rightarrow>
        (let w1 = (case w of None \<Rightarrow> Some (whitelist cl) | Some x \<Rightarrow> Some x);
             b1 = (case b of None \<Rightarrow> Some (blacklist cl @ [''_fe_state_whitelist'', ''_fe_state_blacklist''])
                   | Some x \<Rightarrow> Some x);
             self1 = PyObject m q i w1 b1 s d
         in case s of
              Some x \<Rightarrow> Inr self1
            | None \<Rightarrow>
                on_ok (signature_bind ex fn (PObject self1 # call_args) call_kwargs) (\<lambda>bound_args.
                  if ''self'' \<notin> fst ` set bound_args then Inl KeyError
                  else
                    on_ok (trace_value depth ex
                            (BoundFn (PObject self1)
                               (PDict (map (\<lambda>(k, v). (PStr k, v))
                                  (filter (\<lambda>(k, v). k \<noteq> ''self'') bound_args))))
                            True True) (\<lambda>summary.
                      Inr (PyObject m q i w1 b1 (Some summary) d)))))"

definition init ::
  "closure \<Rightarrow> pyclass \<Rightarrow> nat \<Rightarrow> ext \<Rightarrow> pyval pyobject \<Rightarrow> pyval list \<Rightarrow> (pyval \<times> pyval) list
    \<Rightarrow> error + pyval pyobject" where
  "init cl cls depth ex self call_args call_kwargs =
     on_ok (init_capture cl (init_fn cls) depth ex self call_args call_kwargs) (\<lambda>self'.
       base_init cls self' call_args call_kwargs)"

definition fe_summary :: "pyval pyobject \<Rightarrow> error + string" where
  "fe_summary self =
     (case fe_traceability_summary self of
        None \<Rightarrow> Inl AttributeError
      | Some s \<Rightarrow> Inr (''This experiment used '' @ s))"

text \<open>
  \<open>self.__dict__\<close>: the wrapper's three attributes when present, then the others.
  An entry of \<open>attrs\<close> under one of the three names has no meaning and is skipped.
\<close>

definition wrapper_attrs :: "string list" where
  "wrapper_attrs = [''_fe_state_whitelist'', ''_fe_state_blacklist'', ''_fe_traceability_summary'']"

definition obj_dict :: "pyval pyobject \<Rightarrow> (string \<times> pyval) list" where
  "obj_dict self =
     (case fe_state_whitelist self of None \<Rightarrow> []
      | Some w \<Rightarrow> [(''_fe_state_whitelist'', PTuple (map PStr w))])
     @ (case fe_state_blacklist self of None \<Rightarrow> []
        | Some b \<Rightarrow> [(''_fe_state_blacklist'', PTuple (map PStr b))])
     @ (case fe_traceability_summary self of None \<Rightarrow> []
        | Some s \<Rightarrow> [(''_fe_traceability_summary'', PStr s)])
     @ filter (\<lambda>(k, v). k \<notin> set wrapper_attrs) (attrs self)"

text \<open>\<open>{key: state_dict[key] for key in whitelist}\<close> and \<open>state_dict.pop(key, None)\<close>\<close>

fun dict_restrict ::
  "(string \<times> pyval) list \<Rightarrow> string list \<Rightarrow> (string \<times> pyval) list \<Rightarrow> error + (string \<times> pyval) list" where
  "dict_restrict d [] acc = Inr acc"
| "dict_restrict d (key # keys) acc =
     (case map_of d key of
        None \<Rightarrow> Inl KeyError
      | Some v \<Rightarrow> dict_restrict d keys (dict_update key v acc))"

definition dict_pop :: "string \<Rightarrow> (string \<times> pyval) list \<Rightarrow> (string \<times> pyval) list" where
  "dict_pop key d = filter (\<lambda>(k, v). k \<noteq> key) d"

text \<open>
  \<open>fe_state\<close> tests the instance's \<open>_fe_state_whitelist\<close> but restricts to the closure's
  \<open>whitelist\<close>; reading an attribute the instance lacks raises \<open>AttributeError\<close>.
\<close>

definition fe_state :: "closure \<Rightarrow> pyval pyobject \<Rightarrow> error + (string \<times> pyval) list" where
  "fe_state cl self =
     (let state_dict = obj_dict self
      in case fe_state_whitelist self of
           None \<Rightarrow> Inl AttributeError
         | Some w \<Rightarrow>
             on_ok (if w \<noteq> [] then dict_restrict state_dict (whitelist cl) [] else Inr state_dict)
               (\<lambda>state_dict'.
                  case fe_state_blacklist self of
                    None \<Rightarrow> Inl AttributeError
                  | Some b \<Rightarrow> Inr (fold dict_pop b state_dict')))"

text \<open>
  The decorated class: \<open>__init__\<close> is replaced; \<open>fe_summary\<close> is installed unless the
  class has one; \<open>fe_state\<close> is installed when a whitelist or a blacklist was given or
  the class has none.
\<close>

record traced_class =
  t_class :: pyclass
  t_init :: "nat \<Rightarrow> ext \<Rightarrow> pyval pyobject \<Rightarrow> pyval list \<Rightarrow> (pyval \<times> pyval) list \<Rightarrow> error + pyval pyobject"
  t_fe_summary :: "pyval pyobject \<Rightarrow> error + string"
  t_fe_state :: "pyval pyobject \<Rightarrow> error + (string \<times> pyval) list"

definition make_traceable :: "closure \<Rightarrow> pyclass \<Rightarrow> traced_class" where
  "make_traceable cl cls =
     \<lparr>t_class = cls,
      t_init = init cl cls,
      t_fe_summary = (case base_fe_summary cls of None \<Rightarrow> fe_summary | Some f \<Rightarrow> f),
      t_fe_state =
        (case base_fe_state cls of
           None \<Rightarrow> fe_state cl
         | Some f \<Rightarrow> if whitelist cl \<noteq> [] \<or> blacklist cl \<noteq> [] then fe_state cl else f)\<rparr>"

text \<open>
  \<open>Cls(*args, **kwargs)\<close>: a new instance with an empty \<open>__dict__\<close>, then \<open>__init__\<close>.
\<close>

definition instantiate ::
  "traced_class \<Rightarrow> nat \<Rightarrow> ext \<Rightarrow> pyval list \<Rightarrow> (pyval \<times> pyval) list \<Rightarrow> error + pyval pyobject" where
  "instantiate tc depth ex call_args call_kwargs =
     t_init tc depth ex
       (PyObject (c_module (t_class tc)) (c_qualname (t_class tc)) (c_id (t_class tc)) None None None [])
       call_args call_kwargs"

text \<open>
  A subclass of a decorated class with an empty body, \<open>class Sub(Base): pass\<close>, as
  \<open>make_traceable\<close> finds it when the subclass is decorated in its turn:
  \<open>getattr(cls, '__init__')\<close> is the \<open>init(self, *args, **kwargs)\<close> that the
  decoration of the base installed, and \<open>getattr(cls, 'fe_summary', None)\<close> and
  \<open>getattr(cls, 'fe_state', None)\<close> are the methods of the decorated base. The depth
  and the collaborators are those of the call.
\<close>

definition wrapper_init_fn :: pyval where
  "wrapper_init_fn
     = PFunction ''fastestimator.util.traceability_util''
         ''traceable.<locals>.make_traceable.<locals>.init''"

definition plain_subclass ::
  "traced_class \<Rightarrow> nat \<Rightarrow> ext \<Rightarrow> string \<Rightarrow> string \<Rightarrow> nat \<Rightarrow> pyclass" where
  "plain_subclass base depth ex m q i =
     \<lparr>c_module = m, c_qualname = q, c_id = i, init_fn = wrapper_init_fn,
      base_init = t_init base depth ex,
      base_fe_summary = Some (t_fe_summary base), base_fe_state = Some (t_fe_state base)\<rparr>"

section \<open>Notions for the proofs\<close>

text \<open>
  \<open>frame\<close>: the local variable \<open>instructions\<close> still refers to the same list object,
  nothing was allocated, and no other list object was changed. \<open>shrinks\<close>: moreover the
  working list did not grow and the distance from the index to its end did not grow;
  \<open>shrinks_w\<close> allows the distance to grow by one when the list has become shorter (the
  extra \<open>idx -= 1\<close> of the \<open>RETURN_VALUE\<close> branch).
\<close>

definition frame :: "pstate \<Rightarrow> pstate \<Rightarrow> bool" where
  "frame st st' =
     (instructions st' = instructions st \<and> next_free (mem st') = next_free (mem st) \<and>
      (\<forall>r. r \<noteq> instructions st \<longrightarrow> cells (mem st') r = cells (mem st) r))"

definition shrinks :: "pstate \<Rightarrow> pstate \<Rightarrow> bool" where
  "shrinks st st' =
     (frame st st' \<and> length (working st') \<le> length (working st) \<and>
      int (length (working st')) - idx st' \<le> int (length (working st)) - idx st)"

definition shrinks_w :: "pstate \<Rightarrow> pstate \<Rightarrow> bool" where
  "shrinks_w st st' =
     (frame st st' \<and>
      (length (working st') \<le> length (working st) \<and>
         int (length (working st')) - idx st' \<le> int (length (working st)) - idx st
       \<or> length (working st') < length (working st) \<and>
         int (length (working st')) - idx st' \<le> int (length (working st)) - idx st + 1))"

definition keeps :: "'a parse \<Rightarrow> bool" where
  "keeps m = (\<forall>st. shrinks st (snd (m st)))"

text \<open>
  The state in which the loop starts when \<open>_parse_instructions\<close> is called with the
  list at address \<open>a\<close>, and the states the walk passes through: \<open>passes ex cv st st'\<close>
  when the loop, started in \<open>st\<close>, is at its test in \<open>st'\<close> some rounds later.
\<close>

definition start_state :: "store \<Rightarrow> nat \<Rightarrow> pstate" where
  "start_state h a =
     \<lparr>mem = snd (alloc h (cells h a)), instructions = fst (alloc h (cells h a)),
      conditions = [], args = [], idx = 0\<rparr>"

inductive passes :: "ext \<Rightarrow> pyval closure_vars \<Rightarrow> pstate \<Rightarrow> pstate \<Rightarrow> bool" where
  here: "passes ex cv st st"
| round: "idx st < int (length (working st)) \<Longrightarrow> step ex cv st = (Inr Next, st1)
          \<Longrightarrow> passes ex cv (st1\<lparr>idx := idx st1 + 1\<rparr>) st' \<Longrightarrow> passes ex cv st st'"

text \<open>The opcode names that the \<open>if\<close>/\<open>elif\<close> chain tests by equality.\<close>

definition supported_opnames :: "string list" where
  "supported_opnames =
    [''RETURN_VALUE'', ''LOAD_CONST'', ''LOAD_FAST'', ''BUILD_LIST'', ''BUILD_TUPLE'', ''BUILD_SET'',
     ''BUILD_MAP'', ''BUILD_CONST_KEY_MAP'', ''LOAD_DEREF'', ''LOAD_METHOD'', ''LOAD_ATTR'',
     ''LOAD_GLOBAL'', ''CALL_METHOD'', ''CALL_FUNCTION'', ''CALL_FUNCTION_KW'', ''COMPARE_OP'',
     ''POP_JUMP_IF_FALSE'']"

section \<open>Concrete inputs\<close>

text \<open>
  Collaborators that know nothing: no value is callable, no attribute exists, no call
  binds; and a scope with no names.
\<close>

definition bare_ext :: ext where
  "bare_ext =
     \<lparr>has_call = (\<lambda>v. False), getattr = (\<lambda>v n. Inl AttributeError),
      signature_bind = (\<lambda>f xs kw. Inl TypeError)\<rparr>"

definition no_names :: "pyval closure_vars" where
  "no_names = ClosureVars [] [] []"

text \<open>
  A class whose \<open>__init__\<close> stores each keyword argument as the attribute of that name,
  as in \<open>def __init__(self, name, count): self.name = name; self.count = count\<close>, and
  the signature binding of a call that passes every parameter by keyword, in the order of
  the declaration.
\<close>

definition keyword_attrs :: "(pyval \<times> pyval) list \<Rightarrow> (string \<times> pyval) list" where
  "keyword_attrs kw = concat (map (\<lambda>(k, v). case k of PStr n \<Rightarrow> [(n, v)] | _ \<Rightarrow> []) kw)"

definition keyword_init ::
  "pyval pyobject \<Rightarrow> pyval list \<Rightarrow> (pyval \<times> pyval) list \<Rightarrow> error + pyval pyobject" where
  "keyword_init self call_args call_kwargs =
     (case self of PyObject m q i w b s d \<Rightarrow> Inr (PyObject m q i w b s (d @ keyword_attrs call_kwargs)))"

definition keyword_ext :: ext where
  "keyword_ext =
     \<lparr>has_call = (\<lambda>v. False), getattr = (\<lambda>v n. Inl AttributeError),
      signature_bind = (\<lambda>f xs kw.
        case xs of [self] \<Rightarrow> Inr ((''self'', self) # keyword_attrs kw) | _ \<Rightarrow> Inl TypeError)\<rparr>"

definition keyword_class :: "string \<Rightarrow> string \<Rightarrow> nat \<Rightarrow> pyclass" where
  "keyword_class m q i =
     \<lparr>c_module = m, c_qualname = q, c_id = i, init_fn = PFunction m (q @ ''.__init__''),
      base_init = keyword_init, base_fe_summary = None, base_fe_state = None\<rparr>"

text \<open>\<open>Widget(name="w", count=3)\<close>\<close>

definition widget_kwargs :: "(pyval \<times> pyval) list" where
  "widget_kwargs = [(PStr ''name'', PStr ''w''), (PStr ''count'', PInt 3)]"

text \<open>
  The class \<open>Widget\<close> of module \<open>widgets\<close>, the closure of \<open>traceable()\<close> with
  neither list, the class \<open>Vault\<close> of module \<open>vaults\<close> with the call
  \<open>Vault(secret=1, visible=2)\<close>, and the instance that \<open>Widget(name="w", count=3)\<close>
  yields under a wrapper with the whitelist \<open>wl\<close> and no blacklist.
\<close>

definition widget_class :: pyclass where
  "widget_class = keyword_class ''widgets'' ''Widget'' 7"

definition no_lists :: closure where
  "no_lists = \<lparr>whitelist = [], blacklist = []\<rparr>"

definition vault_class :: pyclass where
  "vault_class = keyword_class ''vaults'' ''Vault'' 9"

definition vault_kwargs :: "(pyval \<times> pyval) list" where
  "vault_kwargs = [(PStr ''secret'', PInt 1), (PStr ''visible'', PInt 2)]"

definition widget_instance :: "string list \<Rightarrow> pyval pyobject" where
  "widget_instance wl =
     PyObject ''widgets'' ''Widget'' 7 (Some wl) (Some [''_fe_state_whitelist'', ''_fe_state_blacklist''])
       (Some ''an instance of widgets.Widget invoked with: {name='w', count=3}'')
       [(''name'', PStr ''w''), (''count'', PInt 3)]"

text \<open>
  The signature binding that also knows the wrapper's \<open>init(self, *args, **kwargs)\<close>:
  the receiver, the tuple of the other positional arguments and the dict of the keyword
  arguments. The class \<open>SubWidget\<close> is \<open>class SubWidget(Widget): pass\<close> under
  \<open>@traceable()\<close>, where \<open>Widget\<close> is under \<open>@traceable(whitelist='name')\<close>.
\<close>

definition chain_ext :: ext where
  "chain_ext =
     \<lparr>has_call = (\<lambda>v. False), getattr = (\<lambda>v n. Inl AttributeError),
      signature_bind = (\<lambda>f xs kw.
        if f = wrapper_init_fn
        then (case xs of [] \<Rightarrow> Inl TypeError
              | self # rest \<Rightarrow> Inr [(''self'', self), (''args'', PTuple rest), (''kwargs'', PDict kw)])
        else signature_bind keyword_ext f xs kw)\<rparr>"

definition sub_widget :: "nat \<Rightarrow> traced_class" where
  "sub_widget depth =
     make_traceable no_lists
       (plain_subclass (make_traceable \<lparr>whitelist = [''name''], blacklist = []\<rparr> widget_class)
          depth chain_ext ''widgets'' ''SubWidget'' 8)"

text \<open>
  The instance that \<open>SubWidget(name="w", count=3)\<close> yields: the lists are those of
  \<open>@traceable()\<close>, and the summary names the parameters \<open>args\<close> and \<open>kwargs\<close> of the
  wrapper's \<open>init\<close>.
\<close>

definition sub_widget_instance :: "pyval pyobject" where
  "sub_widget_instance =
     PyObject ''widgets'' ''SubWidget'' 8 (Some []) (Some [''_fe_state_whitelist'', ''_fe_state_blacklist''])
       (Some (''an instance of widgets.SubWidget invoked with: {args=(), kwargs={''
              @ squote @ ''name'' @ squote @ ''='' @ squote @ ''w'' @ squote @ '', ''
              @ squote @ ''count'' @ squote @ ''=3}}''))
       [(''name'', PStr ''w''), (''count'', PInt 3)]"

text \<open>
  The instructions of \<open>lambda x, y: x if x > y else y\<close> as \<open>dis\<close> lists them, and a
  store that holds them at address 0.
\<close>

definition ternary_stream :: "pyval instruction list" where
  "ternary_stream =
    [Instruction ''LOAD_FAST'' (PStr ''x''), Instruction ''LOAD_FAST'' (PStr ''y''),
     Instruction ''COMPARE_OP'' (PStr ''>''), Instruction ''POP_JUMP_IF_FALSE'' (PInt 12),
     Instruction ''LOAD_FAST'' (PStr ''x''), Instruction ''RETURN_VALUE'' PNone,
     Instruction ''LOAD_FAST'' (PStr ''y''), Instruction ''RETURN_VALUE'' PNone]"

definition store_of :: "pyval instruction list \<Rightarrow> store" where
  "store_of xs = snd (alloc empty_store xs)"

text \<open>
  The instructions of \<open>lambda x: x.a.b\<close>, where the scope binds no \<open>a\<close>.
\<close>

definition attribute_chain_stream :: "pyval instruction list" where
  "attribute_chain_stream =
    [Instruction ''LOAD_FAST'' (PStr ''x''), Instruction ''LOAD_ATTR'' (PStr ''a''),
     Instruction ''LOAD_ATTR'' (PStr ''b''), Instruction ''RETURN_VALUE'' PNone]"

text \<open>
  The instructions of \<open>lambda x: -x\<close>, the state of the walk when it comes to
  \<open>UNARY_NEGATIVE\<close>, and the instructions of \<open>lambda x, y: x in y\<close>.
\<close>

definition negation_stream :: "pyval instruction list" where
  "negation_stream =
    [Instruction ''LOAD_FAST'' (PStr ''x''), Instruction ''UNARY_NEGATIVE'' PNone,
     Instruction ''RETURN_VALUE'' PNone]"

definition negation_state :: pstate where
  "negation_state =
     \<lparr>mem = \<lparr>cells = (\<lambda>r. [])(0 := negation_stream, 1 := negation_stream), next_free = 2\<rparr>,
      instructions = 1, conditions = [], args = [VarWrap (PStr ''x'')], idx = 1\<rparr>"

definition membership_stream :: "pyval instruction list" where
  "membership_stream =
    [Instruction ''LOAD_FAST'' (PStr ''x''), Instruction ''LOAD_FAST'' (PStr ''y''),
     Instruction ''COMPARE_OP'' (PStr ''in''), Instruction ''RETURN_VALUE'' PNone]"

definition membership_state :: pstate where
  "membership_state =
     \<lparr>mem = \<lparr>cells = (\<lambda>r. [])(0 := membership_stream, 1 := membership_stream), next_free = 2\<rparr>,
      instructions = 1, conditions = [], args = [VarWrap (PStr ''x''), VarWrap (PStr ''y'')], idx = 2\<rparr>"

section \<open>Termination of the walk\<close>

lemma frame_refl: "frame st st"
  by (simp add: frame_def)

lemma frame_trans: "frame a b \<Longrightarrow> frame b c \<Longrightarrow> frame a c"
  by (simp add: frame_def)

lemma shrinks_refl: "shrinks st st"
  by (simp add: shrinks_def frame_refl)

lemma shrinks_trans: "shrinks a b \<Longrightarrow> shrinks b c \<Longrightarrow> shrinks a c"
  unfolding shrinks_def using frame_trans by fastforce

lemma shrinks_weaken: "shrinks a b \<Longrightarrow> shrinks_w a b"
  by (simp add: shrinks_def shrinks_w_def)

lemma keeps_ret: "keeps (ret a)"
  by (simp add: keeps_def ret_def shrinks_refl)

lemma keeps_lift: "keeps (lift r)"
  by (simp add: keeps_def lift_def shrinks_refl)

lemma keeps_get_state: "keeps get_state"
  by (simp add: keeps_def get_state_def shrinks_refl)

lemma keeps_instructions_at: "keeps (instructions_at i)"
  by (simp add: keeps_def instructions_at_def shrinks_refl)

lemma keeps_and_then: "keeps m \<Longrightarrow> (\<And>a. keeps (f a)) \<Longrightarrow> keeps (and_then m f)"
  unfolding keeps_def and_then_def
proof
  fix st
  assume m: "\<forall>st. shrinks st (snd (m st))" and f: "\<And>a. \<forall>st. shrinks st (snd (f a st))"
  obtain r st' where eq: "m st = (r, st')" by (cases "m st")
  from m eq have s1: "shrinks st st'" by (metis snd_conv)
  show "shrinks st (snd (case m st of (Inl e, st') \<Rightarrow> (Inl e, st') | (Inr a, st') \<Rightarrow> f a st'))"
  proof (cases r)
    case (Inl e)
    with eq s1 show ?thesis by simp
  next
    case (Inr a)
    with eq have "snd (case m st of (Inl e, st') \<Rightarrow> (Inl e, st') | (Inr a, st') \<Rightarrow> f a st') = snd (f a st')"
      by simp
    with s1 f [of a] show ?thesis using shrinks_trans by metis
  qed
qed

lemma length_list_pop_at: "list_pop_at xs i = Inr ys \<Longrightarrow> Suc (length ys) = length xs"
  by (auto simp: list_pop_at_def Let_def split: if_splits)

lemma keeps_instructions_pop: "keeps (instructions_pop i)"
  by (auto simp: keeps_def instructions_pop_def shrinks_def frame_def working_def
      dest!: length_list_pop_at split: sum.splits)

lemma keeps_pop_prev: "keeps pop_prev"
  by (auto simp: keeps_def pop_prev_def and_then_def idx_add_def instructions_pop_def shrinks_def
      frame_def working_def dest!: length_list_pop_at split: sum.splits)

lemma keeps_args_pop: "keeps args_pop"
  by (simp add: keeps_def args_pop_def shrinks_def frame_def working_def)

lemma keeps_args_append: "keeps (args_append v)"
  by (simp add: keeps_def args_append_def shrinks_def frame_def working_def)

lemma keeps_conditions_pop: "keeps conditions_pop"
  by (simp add: keeps_def conditions_pop_def shrinks_def frame_def working_def)

lemma keeps_conditions_append: "keeps (conditions_append c)"
  by (simp add: keeps_def conditions_append_def shrinks_def frame_def working_def)

lemmas keeps_intros =
  keeps_and_then keeps_ret keeps_lift keeps_get_state keeps_instructions_at keeps_instructions_pop
  keeps_pop_prev keeps_args_pop keeps_args_append keeps_conditions_pop keeps_conditions_append

lemma keeps_gather: "keeps (gather n acc)"
  by (induction n arbitrary: acc) (auto intro!: keeps_intros)

lemma keeps_build_map: "keeps (build_map n arg)"
  by (induction n arbitrary: arg) (auto intro!: keeps_intros)

declare fold_attrs.simps [simp del]

lemma shrinks_fold_attrs: "shrinks st (snd (fold_attrs ex func st))"
proof (induction ex func st rule: fold_attrs.induct)
  case (1 ex func st)
  show ?case
  proof (cases "idx st + 1 < int (length (working st))")
    case False
    then show ?thesis by (subst fold_attrs.simps) (simp add: shrinks_refl)
  next
    case more: True
    show ?thesis
    proof (cases "list_index (working st) (idx st + 1)")
      case (Inl e)
      with more show ?thesis by (subst fold_attrs.simps) (simp add: shrinks_refl)
    next
      case nxt: (Inr nxt)
      show ?thesis
      proof (cases "opname nxt \<in> set [''LOAD_METHOD'', ''LOAD_ATTR'']")
        case False
        with more nxt show ?thesis by (subst fold_attrs.simps) (simp add: shrinks_refl)
      next
        case isattr: True
        show ?thesis
        proof (cases "getattr ex func (argval nxt)")
          case (Inl e)
          with more nxt isattr show ?thesis by (subst fold_attrs.simps) (simp add: shrinks_refl)
        next
          case func': (Inr func')
          obtain r st' where pop: "instructions_pop (idx st + 1) st = (r, st')"
            by (cases "instructions_pop (idx st + 1) st")
          have s1: "shrinks st st'"
            using keeps_instructions_pop pop by (metis keeps_def snd_conv)
          show ?thesis
          proof (cases r)
            case (Inl e)
            with more nxt isattr func' pop s1 show ?thesis
              by (subst fold_attrs.simps) simp
          next
            case (Inr u)
            have "shrinks st' (snd (fold_attrs ex func' st'))"
              using "1" [OF more nxt isattr func' pop [symmetric] Inr] .
            with s1 have "shrinks st (snd (fold_attrs ex func' st'))"
              by (rule shrinks_trans)
            with more nxt isattr func' pop Inr show ?thesis
              by (subst fold_attrs.simps) simp
          qed
        qed
      qed
    qed
  qed
qed

lemma keeps_fold_attrs: "keeps (fold_attrs ex func)"
  by (simp add: keeps_def shrinks_fold_attrs)

lemma keeps_if: "keeps a \<Longrightarrow> keeps b \<Longrightarrow> keeps (if c then a else b)"
  by simp

lemma keeps_step_build_iterable: "keeps (step_build_iterable i)"
  unfolding step_build_iterable_def by (intro keeps_intros keeps_gather allI)

lemma keeps_step_build_map: "keeps (step_build_map i)"
  unfolding step_build_map_def by (intro keeps_intros keeps_build_map allI)

lemma keeps_step_build_const_key_map: "keeps (step_build_const_key_map i)"
  unfolding step_build_const_key_map_def by (intro keeps_intros keeps_gather allI)

lemma keeps_is_plain_deref: "keeps (is_plain_deref ex cv i)"
  unfolding is_plain_deref_def by (intro keeps_intros keeps_if allI)

lemma keeps_step_function_ref: "keeps (step_function_ref ex cv)"
  unfolding step_function_ref_def by (intro keeps_intros keeps_fold_attrs allI)

lemma keeps_step_call: "keeps (step_call ex i)"
  unfolding step_call_def
  by (intro keeps_intros keeps_gather keeps_if allI) (simp_all add: split_def keeps_intros)

lemma keeps_step_command: "keeps (step_command i)"
  unfolding step_command_def Let_def
  by (intro keeps_intros keeps_if allI) (simp_all add: keeps_intros split: option.split)

lemma keeps_step_pop_jump: "keeps step_pop_jump"
  unfolding step_pop_jump_def by (intro keeps_intros allI)

lemma keeps_step_other: "keeps (step_other ex cv i)"
  unfolding step_other_def
  by (intro keeps_intros keeps_if keeps_step_build_iterable keeps_step_build_map
      keeps_step_build_const_key_map keeps_is_plain_deref keeps_step_function_ref keeps_step_call
      keeps_step_command keeps_step_pop_jump allI)

lemma shrinks_w_step_return: "shrinks_w st (snd (step_return st))"
  by (auto simp: step_return_def and_then_def get_state_def conditions_pop_def args_pop_def
      pop_prev_def instructions_pop_def idx_add_def ret_def conditions_append_def args_append_def
      shrinks_w_def frame_def working_def
      dest!: length_list_pop_at split: sum.splits prod.splits if_splits)

lemma shrinks_w_step: "shrinks_w st (snd (step ex cv st))"
proof -
  have other: "\<And>i. shrinks_w st (snd (step_other ex cv i st))"
    using keeps_step_other by (simp add: keeps_def shrinks_weaken)
  have refl: "shrinks_w st st"
    by (simp add: shrinks_weaken shrinks_refl)
  show ?thesis
    by (cases "list_index (working st) (idx st)")
      (simp_all add: step_def and_then_def get_state_def instructions_at_def other refl
        shrinks_w_step_return)
qed

termination parse_loop
proof (relation "inv_image (less_than <*lex*> less_than)
    (\<lambda>(ex, cv, st). (nat (int (length (working st)) - idx st), length (working st)))")
  show "wf (inv_image (less_than <*lex*> less_than)
    (\<lambda>(ex, cv, st). (nat (int (length (working st)) - idx st), length (working st))))"
    by (intro wf_inv_image wf_lex_prod wf_less_than)
next
  fix ex cv st x st' r
  assume more: "idx st < int (length (working st))"
    and res: "(x, st') = step ex cv st"
  have "shrinks_w st st'"
    using shrinks_w_step [of st ex cv] res by (metis snd_conv)
  with more show "((ex, cv, st'\<lparr>idx := idx st' + 1\<rparr>), ex, cv, st)
    \<in> inv_image (less_than <*lex*> less_than)
        (\<lambda>(ex, cv, st). (nat (int (length (working st)) - idx st), length (working st)))"
    by (auto simp: shrinks_w_def working_def)
qed

declare parse_loop.simps [simp del]

section \<open>Properties of the wrapper\<close>

lemmas wrapper_defs =
  make_traceable_def instantiate_def init_def init_capture_def fe_summary_def on_ok_def
  id_str_def squote_def show_int_def

lemmas example_defs =
  keyword_class_def keyword_ext_def keyword_init_def keyword_attrs_def widget_kwargs_def

subsection \<open>Dictionaries as association lists\<close>

lemma map_of_dict_update: "map_of (dict_update k v d) = (map_of d)(k \<mapsto> v)"
proof (induction d)
  case Nil
  then show ?case by simp
next
  case (Cons p ps)
  obtain k' v' where p: "p = (k', v')" by (cases p)
  show ?case
  proof (cases "k' = k")
    case True
    with p show ?thesis by (simp add: fun_eq_iff)
  next
    case False
    with p Cons show ?thesis by (simp add: fun_eq_iff)
  qed
qed

lemma keys_dict_update: "fst ` set (dict_update k v d) = insert k (fst ` set d)"
proof -
  have "fst ` set (dict_update k v d) = dom (map_of (dict_update k v d))"
    by (simp add: dom_map_of_conv_image_fst)
  also have "\<dots> = insert k (dom (map_of d))"
    by (simp add: map_of_dict_update)
  finally show ?thesis by (simp add: dom_map_of_conv_image_fst)
qed

lemma distinct_dict_update: "distinct (map fst d) \<Longrightarrow> distinct (map fst (dict_update k v d))"
proof (induction d)
  case Nil
  then show ?case by simp
next
  case (Cons p ps)
  have "fst ` set (dict_update k v ps) = insert k (fst ` set ps)"
    by (rule keys_dict_update)
  with Cons show ?case by auto
qed

lemma dict_restrict_missing:
  "\<exists>k\<in>set ks. map_of d k = None \<Longrightarrow> dict_restrict d ks acc = Inl KeyError"
proof (induction ks arbitrary: acc)
  case Nil
  then show ?case by simp
next
  case (Cons key keys)
  show ?case
  proof (cases "map_of d key")
    case None
    then show ?thesis by simp
  next
    case (Some v)
    with Cons.prems have "\<exists>k\<in>set keys. map_of d k = None" by auto
    from Cons.IH [OF this] Some show ?thesis by simp
  qed
qed

lemma dict_restrict_present:
  "\<forall>k\<in>set ks. map_of d k \<noteq> None \<Longrightarrow>
   \<exists>r. dict_restrict d ks acc = Inr r
       \<and> (\<forall>k. map_of r k = (if k \<in> set ks then map_of d k else map_of acc k))
       \<and> (distinct (map fst acc) \<longrightarrow> distinct (map fst r))"
proof (induction ks arbitrary: acc)
  case Nil
  then show ?case by simp
next
  case (Cons key keys)
  from Cons.prems obtain v where v: "map_of d key = Some v"
    by (cases "map_of d key") simp_all
  from Cons.prems have rest: "\<forall>k\<in>set keys. map_of d k \<noteq> None"
    by simp
  from Cons.IH [OF rest, of "dict_update key v acc"]
  obtain r where all: "dict_restrict d keys (dict_update key v acc) = Inr r
       \<and> (\<forall>k. map_of r k = (if k \<in> set keys then map_of d k else map_of (dict_update key v acc) k))
       \<and> (distinct (map fst (dict_update key v acc)) \<longrightarrow> distinct (map fst r))" ..
  show ?case
  proof (intro exI conjI allI impI)
    show "dict_restrict d (key # keys) acc = Inr r"
      using v all by simp
  next
    fix k
    from all have "map_of r k = (if k \<in> set keys then map_of d k else map_of (dict_update key v acc) k)"
      by (elim conjE) (erule spec)
    then show "map_of r k = (if k \<in> set (key # keys) then map_of d k else map_of acc k)"
      using v by (cases "k = key") (simp_all add: map_of_dict_update)
  next
    assume "distinct (map fst acc)"
    then have "distinct (map fst (dict_update key v acc))"
      by (rule distinct_dict_update)
    with all show "distinct (map fst r)"
      by (elim conjE) (erule mp)
  qed
qed

lemma map_of_dict_pop: "map_of (dict_pop key d) k = (if k = key then None else map_of d k)"
  by (induction d) (auto simp: dict_pop_def)

lemma map_of_fold_dict_pop: "map_of (fold dict_pop b d) k = (if k \<in> set b then None else map_of d k)"
  by (induction b arbitrary: d) (auto simp: map_of_dict_pop)

lemma distinct_fold_dict_pop: "distinct (map fst d) \<Longrightarrow> distinct (map fst (fold dict_pop b d))"
proof (induction b arbitrary: d)
  case Nil
  then show ?case by simp
next
  case (Cons key b)
  have "distinct (map fst (dict_pop key d))"
    using Cons.prems by (simp add: dict_pop_def distinct_map_filter)
  then show ?case using Cons.IH by simp
qed

subsection \<open>The state snapshot\<close>

lemma dict_restrict_present_empty:
  assumes "\<forall>k\<in>set ks. map_of d k \<noteq> None"
  shows "\<exists>r. dict_restrict d ks [] = Inr r
       \<and> (\<forall>k. map_of r k = (if k \<in> set ks then map_of d k else None))
       \<and> distinct (map fst r)"
  using dict_restrict_present [OF assms, of "[]"] by (simp cong: if_cong)

lemma fe_state_restricted:
  assumes w: "fe_state_whitelist self = Some w" and nonempty: "w \<noteq> []"
    and b: "fe_state_blacklist self = Some b"
  shows "if \<forall>k\<in>set (whitelist cl). k \<in> fst ` set (obj_dict self)
         then \<exists>d. fe_state cl self = Inr d \<and> distinct (map fst d)
                \<and> (\<forall>k. map_of d k = (if k \<in> set (whitelist cl) - set b
                                        then map_of (obj_dict self) k else None))
         else fe_state cl self = Inl KeyError"
proof (cases "\<forall>k\<in>set (whitelist cl). k \<in> fst ` set (obj_dict self)")
  case True
  then have "\<forall>k\<in>set (whitelist cl). map_of (obj_dict self) k \<noteq> None"
    by (simp add: map_of_eq_None_iff)
  from dict_restrict_present_empty [OF this]
  have "\<exists>r. dict_restrict (obj_dict self) (whitelist cl) [] = Inr r
      \<and> (\<forall>k. map_of r k = (if k \<in> set (whitelist cl) then map_of (obj_dict self) k else None))
      \<and> distinct (map fst r)" .
  then obtain r where all: "dict_restrict (obj_dict self) (whitelist cl) [] = Inr r
      \<and> (\<forall>k. map_of r k = (if k \<in> set (whitelist cl) then map_of (obj_dict self) k else None))
      \<and> distinct (map fst r)" ..
  then have r: "dict_restrict (obj_dict self) (whitelist cl) [] = Inr r"
    and m: "\<And>k. map_of r k = (if k \<in> set (whitelist cl) then map_of (obj_dict self) k else None)"
    and dist: "distinct (map fst r)"
    by simp_all
  have res: "fe_state cl self = Inr (fold dict_pop b r)"
    using w nonempty b r by (simp add: fe_state_def on_ok_def)
  have d2: "distinct (map fst (fold dict_pop b r))"
    using dist by (rule distinct_fold_dict_pop)
  have m2: "\<forall>k. map_of (fold dict_pop b r) k
      = (if k \<in> set (whitelist cl) - set b then map_of (obj_dict self) k else None)"
    by (simp add: map_of_fold_dict_pop m)
  from res d2 m2 have "\<exists>d. fe_state cl self = Inr d \<and> distinct (map fst d)
                \<and> (\<forall>k. map_of d k = (if k \<in> set (whitelist cl) - set b
                                        then map_of (obj_dict self) k else None))"
    by (intro exI [of _ "fold dict_pop b r"] conjI)
  then show ?thesis by (simp only: if_P [OF True])
next
  case False
  then have "\<exists>k\<in>set (whitelist cl). map_of (obj_dict self) k = None"
    by (simp add: map_of_eq_None_iff)
  then have "dict_restrict (obj_dict self) (whitelist cl) [] = Inl KeyError"
    by (rule dict_restrict_missing)
  then have "fe_state cl self = Inl KeyError"
    using w nonempty by (simp add: fe_state_def on_ok_def)
  then show ?thesis by (simp only: if_not_P [OF False])
qed

lemmas widget_defs = widget_class_def no_lists_def example_defs

subsection \<open>Decoration\<close>

text \<open>
  C7. \<open>traceable\<close> raises \<open>ValueError\<close> when the whitelist and the blacklist are both
  non-empty, and otherwise returns the decorator with the two lists. A bare string counts
  as the one-element tuple, so it is never empty. The error is the result of \<open>traceable\<close>
  itself, which has seen neither a class nor an instance: no decorator exists that could
  wrap a class.
\<close>

theorem traceable_rejects_both_lists:
  "(as_tuple wl \<noteq> [] \<and> as_tuple bl \<noteq> [] \<longrightarrow> traceable wl bl = Inl ValueError)
   \<and> (as_tuple wl = [] \<or> as_tuple bl = []
        \<longrightarrow> traceable wl bl = Inr \<lparr>whitelist = as_tuple wl, blacklist = as_tuple bl\<rparr>)
   \<and> as_tuple (Str s) \<noteq> [] \<and> as_tuple (Tup xs) = xs"
  by (simp add: traceable_def as_tuple_def Let_def)

theorem traceable_rejects_both_lists_witness:
  "traceable (Tup [''a'']) (Str ''b'') = Inl ValueError
   \<and> traceable (Tup [''a'']) (Tup []) = Inr \<lparr>whitelist = [''a''], blacklist = []\<rparr>
   \<and> traceable (Tup []) (Str ''b'') = Inr \<lparr>whitelist = [], blacklist = [''b'']\<rparr>
   \<and> traceable (Tup []) (Tup []) = Inr \<lparr>whitelist = [], blacklist = []\<rparr>"
  using traceable_rejects_both_lists [of "Tup [''a'']" "Str ''b''"]
    traceable_rejects_both_lists [of "Tup [''a'']" "Tup []"]
    traceable_rejects_both_lists [of "Tup []" "Str ''b''"]
    traceable_rejects_both_lists [of "Tup []" "Tup []"]
  by (simp add: as_tuple_def)

text \<open>
  C10. A bare string as \<open>whitelist\<close> or \<open>blacklist\<close> gives the same result of
  \<open>traceable\<close> as the one-element tuple holding it: the same error, or the same
  decorator. The wrapped constructor, \<open>fe_summary\<close> and \<open>fe_state\<close> of a decorated
  class are functions of that decorator (\<open>make_traceable\<close>), so they agree as well.
\<close>

theorem bare_string_as_one_tuple:
  "traceable (Str x) bl = traceable (Tup [x]) bl
   \<and> traceable wl (Str x) = traceable wl (Tup [x])
   \<and> map_sum id (\<lambda>cl. make_traceable cl cls) (traceable (Str x) bl)
       = map_sum id (\<lambda>cl. make_traceable cl cls) (traceable (Tup [x]) bl)
   \<and> map_sum id (\<lambda>cl. make_traceable cl cls) (traceable wl (Str x))
       = map_sum id (\<lambda>cl. make_traceable cl cls) (traceable wl (Tup [x]))"
  by (simp add: traceable_def as_tuple_def)

theorem bare_string_as_one_tuple_witness:
  "traceable (Str ''x'') (Tup []) = Inr \<lparr>whitelist = [''x''], blacklist = []\<rparr>
   \<and> traceable (Tup [''x'']) (Tup []) = Inr \<lparr>whitelist = [''x''], blacklist = []\<rparr>
   \<and> traceable (Tup [''y'']) (Str ''x'') = Inl ValueError
   \<and> traceable (Tup [''y'']) (Tup [''x'']) = Inl ValueError"
  using bare_string_as_one_tuple [of "''x''" "Tup []" "Tup [''y'']" widget_class]
  by (simp add: traceable_def as_tuple_def)

subsection \<open>The captured summary\<close>

text \<open>
  C2 (amended). \<open>Widget(name="w", count=3)\<close> on a wrapped class, where the signature
  binding gives \<open>name\<close> and \<open>count\<close> in this order: the wrapper caches the summary
  \<open>an instance of <module>.<qualname> invoked with: {name='w', count=3}\<close> before it runs
  the constructor body, so \<open>fe_summary\<close> of the instance handed to the body is
  \<open>This experiment used an instance of <module>.<qualname> invoked with: ...\<close>, and so
  is \<open>fe_summary\<close> of the finished instance when the body leaves the cached summary
  alone and the class brings no \<open>fe_summary\<close> of its own. The receiver is rendered by
  the tracer's last rule, with include_id off; the text never starts with the bare class
  name. Three frames of recursion suffice.
\<close>

theorem summary_of_wrapped_instance:
  assumes bind: "signature_bind ex (init_fn cls)
      [PObject (PyObject (c_module cls) (c_qualname cls) (c_id cls) (Some (whitelist cl))
         (Some (blacklist cl @ [''_fe_state_whitelist'', ''_fe_state_blacklist''])) None [])]
      widget_kwargs = Inr [(''self'', receiver), (''name'', PStr ''w''), (''count'', PInt 3)]"
  shows "\<exists>self'. instantiate (make_traceable cl cls) (Suc (Suc (Suc n))) ex [] widget_kwargs
           = base_init cls self' [] widget_kwargs
         \<and> fe_summary self' = Inr (''This experiment used an instance of '' @ c_module cls @ ''.''
               @ c_qualname cls @ '' invoked with: {name='w', count=3}'')
         \<and> (\<forall>obj. base_init cls self' [] widget_kwargs = Inr obj
               \<and> fe_traceability_summary obj = fe_traceability_summary self'
               \<and> base_fe_summary cls = None
             \<longrightarrow> t_fe_summary (make_traceable cl cls) obj
                   = Inr (''This experiment used an instance of '' @ c_module cls @ ''.''
                          @ c_qualname cls @ '' invoked with: {name='w', count=3}''))"
proof -
  let ?self' = "PyObject (c_module cls) (c_qualname cls) (c_id cls) (Some (whitelist cl))
      (Some (blacklist cl @ [''_fe_state_whitelist'', ''_fe_state_blacklist'']))
      (Some (''an instance of '' @ c_module cls @ ''.'' @ c_qualname cls
             @ '' invoked with: {name='w', count=3}'')) []"
  have built: "instantiate (make_traceable cl cls) (Suc (Suc (Suc n))) ex [] widget_kwargs
          = base_init cls ?self' [] widget_kwargs"
    using bind by (simp add: wrapper_defs)
  have handed: "fe_summary ?self' = Inr (''This experiment used an instance of '' @ c_module cls
      @ ''.'' @ c_qualname cls @ '' invoked with: {name='w', count=3}'')"
    by (simp add: fe_summary_def)
  have finished: "\<forall>obj. base_init cls ?self' [] widget_kwargs = Inr obj
               \<and> fe_traceability_summary obj = fe_traceability_summary ?self'
               \<and> base_fe_summary cls = None
             \<longrightarrow> t_fe_summary (make_traceable cl cls) obj
                   = Inr (''This experiment used an instance of '' @ c_module cls @ ''.''
                          @ c_qualname cls @ '' invoked with: {name='w', count=3}'')"
    by (simp add: make_traceable_def fe_summary_def)
  from built handed finished show ?thesis
    by (intro exI [of _ ?self'] conjI)
qed

theorem summary_of_wrapped_instance_witness:
  "signature_bind keyword_ext (init_fn widget_class)
      [PObject (PyObject ''widgets'' ''Widget'' 7 (Some [])
         (Some [''_fe_state_whitelist'', ''_fe_state_blacklist'']) None [])]
      widget_kwargs
     = Inr [(''self'', PObject (PyObject ''widgets'' ''Widget'' 7 (Some [])
              (Some [''_fe_state_whitelist'', ''_fe_state_blacklist'']) None [])),
            (''name'', PStr ''w''), (''count'', PInt 3)]
   \<and> (\<exists>self'. instantiate (make_traceable no_lists widget_class) 1000 keyword_ext [] widget_kwargs
           = base_init widget_class self' [] widget_kwargs
         \<and> fe_summary self'
           = Inr ''This experiment used an instance of widgets.Widget invoked with: {name='w', count=3}'')"
proof -
  have bind: "signature_bind keyword_ext (init_fn widget_class)
      [PObject (PyObject (c_module widget_class) (c_qualname widget_class) (c_id widget_class)
         (Some (whitelist no_lists))
         (Some (blacklist no_lists @ [''_fe_state_whitelist'', ''_fe_state_blacklist''])) None [])]
      widget_kwargs
     = Inr [(''self'', PObject (PyObject ''widgets'' ''Widget'' 7 (Some [])
              (Some [''_fe_state_whitelist'', ''_fe_state_blacklist'']) None [])),
            (''name'', PStr ''w''), (''count'', PInt 3)]"
    by (simp add: widget_defs)
  from summary_of_wrapped_instance [OF bind, of 997]
  obtain self' where built: "instantiate (make_traceable no_lists widget_class) (Suc (Suc (Suc 997)))
        keyword_ext [] widget_kwargs = base_init widget_class self' [] widget_kwargs"
    and handed: "fe_summary self' = Inr (''This experiment used an instance of ''
        @ c_module widget_class @ ''.'' @ c_qualname widget_class
        @ '' invoked with: {name='w', count=3}'')"
    by blast
  from built have built': "instantiate (make_traceable no_lists widget_class) 1000 keyword_ext []
      widget_kwargs = base_init widget_class self' [] widget_kwargs"
    by simp
  from handed have handed': "fe_summary self'
      = Inr ''This experiment used an instance of widgets.Widget invoked with: {name='w', count=3}''"
    by (simp add: widget_defs)
  from bind have bind': "signature_bind keyword_ext (init_fn widget_class)
      [PObject (PyObject ''widgets'' ''Widget'' 7 (Some [])
         (Some [''_fe_state_whitelist'', ''_fe_state_blacklist'']) None [])]
      widget_kwargs
     = Inr [(''self'', PObject (PyObject ''widgets'' ''Widget'' 7 (Some [])
              (Some [''_fe_state_whitelist'', ''_fe_state_blacklist'']) None [])),
            (''name'', PStr ''w''), (''count'', PInt 3)]"
    by (simp add: widget_defs)
  from bind' built' handed' show ?thesis by blast
qed

text \<open>
  The same call on the class \<open>Widget\<close> of module \<open>widgets\<close>, which stores its two
  parameters, with a thousand frames: \<open>fe_summary()\<close> of the finished instance.
\<close>

lemma widget_summary:
  "on_ok (instantiate (make_traceable no_lists widget_class) (Suc (Suc (Suc n))) keyword_ext []
            widget_kwargs)
     (t_fe_summary (make_traceable no_lists widget_class))
   = Inr ''This experiment used an instance of widgets.Widget invoked with: {name='w', count=3}''"
  by (simp add: wrapper_defs widget_defs)

theorem widget_summary_is_not_the_claimed_text:
  "on_ok (instantiate (make_traceable no_lists widget_class) 1000 keyword_ext [] widget_kwargs)
     (t_fe_summary (make_traceable no_lists widget_class))
   \<noteq> Inr ''This experiment used Widget invoked with: {name='w', count=3}''"
  using widget_summary [of 997] by simp

subsection \<open>The cached summary\<close>

text \<open>
  C6. An instance that carries a summary is rendered as that very string, whatever the
  flags, the collaborators and the depth left (one frame is enough: nothing is traced and
  no instruction is reconstructed). The statements of the wrapped constructor before the
  constructor body succeed on such an instance without tracing (even with no frame left),
  leave the summary as it is, and running them again on their result, under any wrapper,
  changes nothing; the wrapped constructor is the constructor body on that instance.
\<close>

theorem cached_summary_is_reused:
  "(fe_traceability_summary obj = Some s \<longrightarrow>
      trace_value (Suc n) ex (PObject obj) wrap_str include_id = Inr s
      \<and> (\<exists>obj'. init_capture cl fn depth ex obj call_args call_kwargs = Inr obj'
             \<and> fe_traceability_summary obj' = Some s
             \<and> init cl cls depth ex obj call_args call_kwargs
                 = base_init cls obj' call_args call_kwargs))
   \<and> (init_capture cl fn depth ex obj call_args call_kwargs = Inr obj1 \<longrightarrow>
        fe_traceability_summary obj1 \<noteq> None
        \<and> init_capture cl2 fn2 depth2 ex2 obj1 call_args2 call_kwargs2 = Inr obj1)"
proof -
  obtain m q i w b t d where obj: "obj = PyObject m q i w b t d"
    by (cases obj)
  have cached: "fe_traceability_summary obj = Some s \<longrightarrow>
      trace_value (Suc n) ex (PObject obj) wrap_str include_id = Inr s
      \<and> (\<exists>obj'. init_capture cl fn depth ex obj call_args call_kwargs = Inr obj'
             \<and> fe_traceability_summary obj' = Some s
             \<and> init cl cls depth ex obj call_args call_kwargs
                 = base_init cls obj' call_args call_kwargs)"
    unfolding obj by (simp add: init_capture_def init_def on_ok_def)
  have again: "init_capture cl fn depth ex obj call_args call_kwargs = Inr obj1 \<longrightarrow>
        fe_traceability_summary obj1 \<noteq> None
        \<and> init_capture cl2 fn2 depth2 ex2 obj1 call_args2 call_kwargs2 = Inr obj1"
  proof
    assume "init_capture cl fn depth ex obj call_args call_kwargs = Inr obj1"
    then have "\<exists>w1 b1 t1. obj1 = PyObject m q i (Some w1) (Some b1) (Some t1) d"
      unfolding obj
      by (cases t; cases w; cases b)
        (auto simp: init_capture_def on_ok_def Let_def split: sum.splits if_splits)
    then obtain w1 b1 t1 where "obj1 = PyObject m q i (Some w1) (Some b1) (Some t1) d"
      by blast
    then show "fe_traceability_summary obj1 \<noteq> None
        \<and> init_capture cl2 fn2 depth2 ex2 obj1 call_args2 call_kwargs2 = Inr obj1"
      by (simp add: init_capture_def)
  qed
  from cached again show ?thesis by (rule conjI)
qed

theorem cached_summary_is_reused_witness:
  "trace_value 1 bare_ext (PObject (PyObject ''m'' ''C'' 1 None None (Some ''cached'') [])) True True
     = Inr ''cached''
   \<and> init_capture no_lists (PFunction ''m'' ''C.__init__'') 0 bare_ext
        (PyObject ''m'' ''C'' 1 None None (Some ''cached'') []) [] []
     = Inr (PyObject ''m'' ''C'' 1 (Some []) (Some [''_fe_state_whitelist'', ''_fe_state_blacklist''])
              (Some ''cached'') [])
   \<and> init_capture no_lists (PFunction ''m'' ''C.__init__'') 0 bare_ext
        (PyObject ''m'' ''C'' 1 (Some []) (Some [''_fe_state_whitelist'', ''_fe_state_blacklist''])
              (Some ''cached'') []) [] []
     = Inr (PyObject ''m'' ''C'' 1 (Some []) (Some [''_fe_state_whitelist'', ''_fe_state_blacklist''])
              (Some ''cached'') [])"
  using cached_summary_is_reused [of "PyObject ''m'' ''C'' 1 None None (Some ''cached'') []" "''cached''"
      0 bare_ext True True no_lists "PFunction ''m'' ''C.__init__''" 0 "[]" "[]" widget_class
      "PyObject ''m'' ''C'' 1 (Some []) (Some [''_fe_state_whitelist'', ''_fe_state_blacklist''])
              (Some ''cached'') []" no_lists "PFunction ''m'' ''C.__init__''" 0 bare_ext "[]" "[]"]
  by (simp add: init_capture_def no_lists_def)

subsection \<open>The state snapshot of a blacklisted class\<close>

lemmas state_defs =
  fe_state_def obj_dict_def wrapper_attrs_def dict_pop_def vault_class_def vault_kwargs_def

lemma vault_state:
  "on_ok (instantiate (make_traceable \<lparr>whitelist = [], blacklist = [''secret'']\<rparr> vault_class)
            (Suc (Suc (Suc n))) keyword_ext [] vault_kwargs)
     (t_fe_state (make_traceable \<lparr>whitelist = [], blacklist = [''secret'']\<rparr> vault_class))
   = Inr [(''_fe_traceability_summary'',
            PStr ''an instance of vaults.Vault invoked with: {secret=1, visible=2}''),
          (''visible'', PInt 2)]"
  by (simp add: wrapper_defs widget_defs state_defs)

text \<open>
  C3. \<open>class Vault\<close> of module \<open>vaults\<close> stores its parameters \<open>secret\<close> and
  \<open>visible\<close> and is wrapped with \<open>traceable(blacklist=("secret",))\<close>. The state of
  \<open>Vault(secret=1, visible=2)\<close> leaves out \<open>secret\<close>, \<open>_fe_state_whitelist\<close> and
  \<open>_fe_state_blacklist\<close>, but holds \<open>_fe_traceability_summary\<close>, the third attribute
  that the wrapper stores on the instance.
\<close>

theorem blacklisted_state_holds_the_summary:
  "traceable (Tup []) (Tup [''secret'']) = Inr \<lparr>whitelist = [], blacklist = [''secret'']\<rparr>
   \<and> on_ok (instantiate (make_traceable \<lparr>whitelist = [], blacklist = [''secret'']\<rparr> vault_class)
            1000 keyword_ext [] vault_kwargs)
       (t_fe_state (make_traceable \<lparr>whitelist = [], blacklist = [''secret'']\<rparr> vault_class))
     = Inr [(''_fe_traceability_summary'',
              PStr ''an instance of vaults.Vault invoked with: {secret=1, visible=2}''),
            (''visible'', PInt 2)]"
  using vault_state [of 997] by (simp add: traceable_def as_tuple_def)

text \<open>So the state is not the snapshot without the wrapper's attributes.\<close>

theorem blacklisted_state_holds_the_summary_witness:
  "on_ok (instantiate (make_traceable \<lparr>whitelist = [], blacklist = [''secret'']\<rparr> vault_class)
            1000 keyword_ext [] vault_kwargs)
       (t_fe_state (make_traceable \<lparr>whitelist = [], blacklist = [''secret'']\<rparr> vault_class))
     \<noteq> Inr [(''visible'', PInt 2)]"
  using blacklisted_state_holds_the_summary by simp

subsection \<open>The state snapshot of a whitelisted class\<close>

text \<open>
  What the wrapped constructor stores on a new instance: the closure's whitelist, and the
  closure's blacklist followed by the names of these two attributes.
\<close>

lemma new_instance_lists:
  assumes "init_capture cl fn depth ex (PyObject m q i None None None d) call_args call_kwargs = Inr obj"
  shows "fe_state_whitelist obj = Some (whitelist cl)
    \<and> fe_state_blacklist obj = Some (blacklist cl @ [''_fe_state_whitelist'', ''_fe_state_blacklist''])"
  using assms by (auto simp: init_capture_def on_ok_def Let_def split: sum.splits if_splits)

text \<open>
  Every instance that went through a wrapped constructor has the two lists, and a wrapped
  constructor that finds them on the instance leaves them as they are: the lists are those
  of the wrapper that ran first, which is the one of the most derived decorated class.
\<close>

lemma wrapped_instance_has_lists:
  assumes "init_capture cl fn depth ex self call_args call_kwargs = Inr obj"
  shows "fe_state_whitelist obj \<noteq> None \<and> fe_state_blacklist obj \<noteq> None"
  using assms
  by (cases self) (auto simp: init_capture_def on_ok_def Let_def split: sum.splits if_splits option.splits)

lemma stored_lists_are_kept:
  assumes "fe_state_whitelist self = Some w" and "fe_state_blacklist self = Some b"
    and "init_capture cl fn depth ex self call_args call_kwargs = Inr obj"
  shows "fe_state_whitelist obj = Some w \<and> fe_state_blacklist obj = Some b"
  using assms
  by (cases self) (auto simp: init_capture_def on_ok_def Let_def split: sum.splits if_splits option.splits)

text \<open>
  C8 (amended). Let a class be wrapped with a non-empty whitelist, and let an instance
  store a non-empty \<open>_fe_state_whitelist\<close> and a \<open>_fe_state_blacklist\<close>. Then
  \<open>fe_state\<close> of the class raises \<open>KeyError\<close> when a whitelisted name is no key of the
  instance's \<open>__dict__\<close>. Otherwise it returns a dict that holds each whitelisted name
  that is not in the stored blacklist, with the instance's value, and no other name.
  The stored blacklist of a new instance is \<open>_fe_state_whitelist\<close> and
  \<open>_fe_state_blacklist\<close>, so these two are never returned. Nothing is said of the key
  \<open>_fe_traceability_summary\<close> when it is whitelisted itself.
\<close>

theorem whitelisted_state:
  assumes dec: "traceable wl bl = Inr cl" and given: "as_tuple wl \<noteq> []"
    and w: "fe_state_whitelist obj = Some w" and stored: "w \<noteq> []"
    and b: "fe_state_blacklist obj = Some b"
  shows "if \<forall>k\<in>set (as_tuple wl). k \<in> fst ` set (obj_dict obj)
         then \<exists>d. t_fe_state (make_traceable cl cls) obj = Inr d \<and> distinct (map fst d)
                \<and> (\<forall>k. \<not> (k = ''_fe_traceability_summary'' \<and> k \<in> set (as_tuple wl))
                      \<longrightarrow> map_of d k = (if k \<in> set (as_tuple wl) - set b
                                         then map_of (obj_dict obj) k else None))
         else t_fe_state (make_traceable cl cls) obj = Inl KeyError"
proof -
  have cl: "whitelist cl = as_tuple wl"
    using dec by (auto simp: traceable_def Let_def split: if_splits)
  with given have tfs: "t_fe_state (make_traceable cl cls) = fe_state cl"
    by (simp add: make_traceable_def split: option.splits)
  note restricted = fe_state_restricted [OF w stored b, of cl]
  show ?thesis
  proof (cases "\<forall>k\<in>set (as_tuple wl). k \<in> fst ` set (obj_dict obj)")
    case True
    with cl have "\<forall>k\<in>set (whitelist cl). k \<in> fst ` set (obj_dict obj)"
      by simp
    with restricted
    have "\<exists>d. fe_state cl obj = Inr d \<and> distinct (map fst d)
                \<and> (\<forall>k. map_of d k = (if k \<in> set (whitelist cl) - set b
                                        then map_of (obj_dict obj) k else None))"
      by (simp only: if_True)
    then obtain d where res: "fe_state cl obj = Inr d" and dist: "distinct (map fst d)"
      and m: "\<And>k. map_of d k = (if k \<in> set (whitelist cl) - set b
                                  then map_of (obj_dict obj) k else None)"
      by blast
    have "\<forall>k. \<not> (k = ''_fe_traceability_summary'' \<and> k \<in> set (as_tuple wl))
            \<longrightarrow> map_of d k = (if k \<in> set (as_tuple wl) - set b
                               then map_of (obj_dict obj) k else None)"
      using m cl by simp
    with res dist tfs
    have "\<exists>d. t_fe_state (make_traceable cl cls) obj = Inr d \<and> distinct (map fst d)
                \<and> (\<forall>k. \<not> (k = ''_fe_traceability_summary'' \<and> k \<in> set (as_tuple wl))
                      \<longrightarrow> map_of d k = (if k \<in> set (as_tuple wl) - set b
                                         then map_of (obj_dict obj) k else None))"
      by (intro exI [of _ d] conjI) simp_all
    then show ?thesis by (simp only: if_P [OF True])
  next
    case False
    with cl have "\<not> (\<forall>k\<in>set (whitelist cl). k \<in> fst ` set (obj_dict obj))"
      by simp
    with restricted have "fe_state cl obj = Inl KeyError"
      by (simp only: if_False)
    with tfs have "t_fe_state (make_traceable cl cls) obj = Inl KeyError"
      by simp
    then show ?thesis by (simp only: if_not_P [OF False])
  qed
qed

lemma widget_instance_built:
  "instantiate (make_traceable \<lparr>whitelist = wl, blacklist = []\<rparr> widget_class) (Suc (Suc (Suc n)))
     keyword_ext [] widget_kwargs = Inr (widget_instance wl)"
  by (simp add: wrapper_defs widget_defs widget_instance_def)

theorem whitelisted_state_witness:
  "traceable (Str ''name'') (Tup []) = Inr \<lparr>whitelist = [''name''], blacklist = []\<rparr>
   \<and> instantiate (make_traceable \<lparr>whitelist = [''name''], blacklist = []\<rparr> widget_class) 1000
        keyword_ext [] widget_kwargs = Inr (widget_instance [''name''])
   \<and> (\<exists>d. t_fe_state (make_traceable \<lparr>whitelist = [''name''], blacklist = []\<rparr> widget_class)
              (widget_instance [''name'']) = Inr d
         \<and> map_of d ''name'' = Some (PStr ''w'') \<and> map_of d ''count'' = None
         \<and> map_of d ''_fe_state_whitelist'' = None \<and> map_of d ''_fe_state_blacklist'' = None
         \<and> map_of d ''_fe_traceability_summary'' = None)
   \<and> traceable (Str ''size'') (Tup []) = Inr \<lparr>whitelist = [''size''], blacklist = []\<rparr>
   \<and> instantiate (make_traceable \<lparr>whitelist = [''size''], blacklist = []\<rparr> widget_class) 1000
        keyword_ext [] widget_kwargs = Inr (widget_instance [''size''])
   \<and> t_fe_state (make_traceable \<lparr>whitelist = [''size''], blacklist = []\<rparr> widget_class)
        (widget_instance [''size'']) = Inl KeyError"
proof -
  let ?two = "[''_fe_state_whitelist'', ''_fe_state_blacklist'']"
  have d1: "traceable (Str ''name'') (Tup []) = Inr \<lparr>whitelist = [''name''], blacklist = []\<rparr>"
    and d2: "traceable (Str ''size'') (Tup []) = Inr \<lparr>whitelist = [''size''], blacklist = []\<rparr>"
    by (simp_all add: traceable_def as_tuple_def)
  have built1: "instantiate (make_traceable \<lparr>whitelist = [''name''], blacklist = []\<rparr> widget_class) 1000
        keyword_ext [] widget_kwargs = Inr (widget_instance [''name''])"
    using widget_instance_built [of "[''name'']" 997] by simp
  have built2: "instantiate (make_traceable \<lparr>whitelist = [''size''], blacklist = []\<rparr> widget_class) 1000
        keyword_ext [] widget_kwargs = Inr (widget_instance [''size''])"
    using widget_instance_built [of "[''size'']" 997] by simp
  have r1: "\<exists>d. t_fe_state (make_traceable \<lparr>whitelist = [''name''], blacklist = []\<rparr> widget_class)
              (widget_instance [''name'']) = Inr d
         \<and> map_of d ''name'' = Some (PStr ''w'') \<and> map_of d ''count'' = None
         \<and> map_of d ''_fe_state_whitelist'' = None \<and> map_of d ''_fe_state_blacklist'' = None
         \<and> map_of d ''_fe_traceability_summary'' = None"
    using whitelisted_state [OF d1, of "widget_instance [''name'']" "[''name'']" ?two widget_class]
    by (auto simp: as_tuple_def widget_instance_def obj_dict_def wrapper_attrs_def)
  have r2: "t_fe_state (make_traceable \<lparr>whitelist = [''size''], blacklist = []\<rparr> widget_class)
        (widget_instance [''size'']) = Inl KeyError"
    using whitelisted_state [OF d2, of "widget_instance [''size'']" "[''size'']" ?two widget_class]
    by (simp add: as_tuple_def widget_instance_def obj_dict_def wrapper_attrs_def)
  from d1 built1 r1 d2 built2 r2 show ?thesis by blast
qed

text \<open>
  \<open>SubWidget(name="w", count=3)\<close>: the constructor of \<open>SubWidget\<close> runs first and
  stores the empty whitelist of \<open>@traceable()\<close>, the constructor of \<open>Widget\<close> finds
  it and keeps it, and \<open>SubWidget\<close> keeps the \<open>fe_state\<close> of \<open>Widget\<close>. That
  \<open>fe_state\<close> tests the stored whitelist, which is empty, and does not restrict the
  state to \<open>name\<close>: \<open>count\<close> is returned too.
\<close>

lemma sub_widget_built:
  "instantiate (sub_widget (Suc (Suc (Suc (Suc n))))) (Suc (Suc (Suc (Suc n)))) chain_ext []
     widget_kwargs = Inr sub_widget_instance"
  by (simp add: sub_widget_def sub_widget_instance_def plain_subclass_def chain_ext_def
       wrapper_init_fn_def wrapper_defs widget_defs)

lemma sub_widget_state:
  "t_fe_state (sub_widget depth) sub_widget_instance
     = Inr [(''_fe_traceability_summary'',
             PStr (''an instance of widgets.SubWidget invoked with: {args=(), kwargs={''
                   @ squote @ ''name'' @ squote @ ''='' @ squote @ ''w'' @ squote @ '', ''
                   @ squote @ ''count'' @ squote @ ''=3}}'')),
            (''name'', PStr ''w''), (''count'', PInt 3)]"
  by (simp add: sub_widget_def sub_widget_instance_def plain_subclass_def make_traceable_def
       widget_defs squote_def fe_state_def obj_dict_def wrapper_attrs_def dict_pop_def on_ok_def)

theorem rewrapped_subclass_state_is_unrestricted:
  "traceable (Str ''name'') (Tup []) = Inr \<lparr>whitelist = [''name''], blacklist = []\<rparr>
   \<and> traceable (Tup []) (Tup []) = Inr no_lists
   \<and> instantiate (sub_widget 1000) 1000 chain_ext [] widget_kwargs = Inr sub_widget_instance
   \<and> fe_state_whitelist sub_widget_instance = Some []
   \<and> t_fe_state (sub_widget 1000) sub_widget_instance
     = Inr [(''_fe_traceability_summary'',
             PStr (''an instance of widgets.SubWidget invoked with: {args=(), kwargs={''
                   @ squote @ ''name'' @ squote @ ''='' @ squote @ ''w'' @ squote @ '', ''
                   @ squote @ ''count'' @ squote @ ''=3}}'')),
            (''name'', PStr ''w''), (''count'', PInt 3)]"
  using sub_widget_built [of 996] sub_widget_state [of 1000]
  by (simp add: traceable_def as_tuple_def no_lists_def sub_widget_instance_def)

section \<open>Properties of the reconstructor\<close>

lemma parse_instructions_start:
  "parse_instructions ex cv h a
     = (fst (parse_loop ex cv (start_state h a)), mem (snd (parse_loop ex cv (start_state h a))))"
  by (simp add: parse_instructions_def start_state_def alloc_def split: prod.splits)

lemma passes_parse_loop: "passes ex cv st st' \<Longrightarrow> parse_loop ex cv st = parse_loop ex cv st'"
proof (induction rule: passes.induct)
  case (here ex cv st)
  show ?case by simp
next
  case (round st ex cv st1 st')
  have "parse_loop ex cv st = parse_loop ex cv (st1\<lparr>idx := idx st1 + 1\<rparr>)"
    using round.hyps(1,2) by (subst parse_loop.simps) simp
  with round.IH show ?case by simp
qed

lemma frame_parse_loop: "frame st (snd (parse_loop ex cv st))"
proof (induction ex cv st rule: parse_loop.induct)
  case (1 ex cv st)
  show ?case
  proof (cases "idx st < int (length (working st))")
    case False
    then show ?thesis by (subst parse_loop.simps) (simp add: frame_refl)
  next
    case more: True
    obtain x st1 where res: "step ex cv st = (x, st1)"
      by (cases "step ex cv st")
    have f1: "frame st st1"
      using shrinks_w_step [of st ex cv] res by (simp add: shrinks_w_def)
    show ?thesis
    proof (cases x)
      case (Inl e)
      with more res f1 show ?thesis by (subst parse_loop.simps) simp
    next
      case (Inr fl)
      show ?thesis
      proof (cases fl)
        case Next
        have "frame (st1\<lparr>idx := idx st1 + 1\<rparr>) (snd (parse_loop ex cv (st1\<lparr>idx := idx st1 + 1\<rparr>)))"
          using "1" [OF more res [symmetric] Inr Next] .
        then have "frame st1 (snd (parse_loop ex cv (st1\<lparr>idx := idx st1 + 1\<rparr>)))"
          by (simp add: frame_def)
        with f1 have "frame st (snd (parse_loop ex cv (st1\<lparr>idx := idx st1 + 1\<rparr>)))"
          by (rule frame_trans)
        with more res Inr Next show ?thesis by (subst parse_loop.simps) simp
      next
        case Break
        with more res Inr f1 show ?thesis by (subst parse_loop.simps) simp
      next
        case ReturnNone
        with more res Inr f1 show ?thesis by (subst parse_loop.simps) simp
      qed
    qed
  qed
qed

text \<open>
  C9. The call leaves the caller's list as it was, with every other list allocated before
  the call, whatever it returns or raises: the loop removes instructions only from the
  copy that line 170 allocates.
\<close>

theorem callers_list_unchanged:
  "a < next_free h \<longrightarrow>
     cells (snd (parse_instructions ex cv h a)) a = cells h a
     \<and> (\<forall>r. r < next_free h \<longrightarrow> cells (snd (parse_instructions ex cv h a)) r = cells h r)"
proof -
  have "frame (start_state h a) (snd (parse_loop ex cv (start_state h a)))"
    by (rule frame_parse_loop)
  then have "\<forall>r. r < next_free h \<longrightarrow> cells (snd (parse_instructions ex cv h a)) r = cells h r"
    by (simp add: parse_instructions_start frame_def start_state_def alloc_def)
  then show ?thesis by simp
qed

lemmas parse_defs =
  parse_instructions_def alloc_def empty_store_def store_of_def step_def step_other_def
  step_return_def step_command_def step_pop_jump_def and_then_def ret_def lift_def get_state_def
  instructions_at_def instructions_pop_def idx_add_def pop_prev_def args_pop_def args_append_def
  conditions_pop_def conditions_append_def working_def list_index_def list_pop_at_def finish_def
  table_lookup_def CommandTable_def startswith_def strip_prefix_def is_plain_deref_def

theorem callers_list_unchanged_witness:
  "(0::nat) < next_free (store_of ternary_stream)
   \<and> cells (snd (parse_instructions bare_ext no_names (store_of ternary_stream) 0)) 0 = ternary_stream
   \<and> length (cells (snd (parse_instructions bare_ext no_names (store_of ternary_stream) 0)) 0) = 8"
  using callers_list_unchanged [of 0 "store_of ternary_stream" bare_ext no_names]
  by (simp add: store_of_def alloc_def empty_store_def ternary_stream_def)

subsection \<open>The ternary expression\<close>

lemma ternary_parse:
  "cells h a = ternary_stream \<Longrightarrow>
   fst (parse_instructions ex cv h a)
     = Inr (Condition (VarWrap (PStr ''x'')) (VarWrap (PStr ''y''))
              (Command (VarWrap (PStr ''x'')) (VarWrap (PStr ''y'')) ''>''))"
  by (simp add: parse_defs parse_loop.simps ternary_stream_def)

text \<open>
  C5. For the instructions of \<open>lambda x, y: x if x > y else y\<close> the reconstructor returns
  \<open>_Condition(left=x, right=y, condition=_Command(x, y, '>'))\<close> over the two variable
  references, whatever the scope and the collaborators; the tracer renders that node as
  \<open>x if x > y else y\<close> (three frames suffice), and the lambda itself accordingly.
\<close>

theorem ternary_is_reconstructed:
  "(cells h a = ternary_stream \<longrightarrow>
      fst (parse_instructions ex cv h a)
        = Inr (Condition (VarWrap (PStr ''x'')) (VarWrap (PStr ''y''))
                 (Command (VarWrap (PStr ''x'')) (VarWrap (PStr ''y'')) ''>'')))
   \<and> trace_value (Suc (Suc (Suc n))) ex
        (Condition (VarWrap (PStr ''x'')) (VarWrap (PStr ''y''))
           (Command (VarWrap (PStr ''x'')) (VarWrap (PStr ''y'')) ''>'')) wrap_str include_id
      = Inr ''x if x > y else y''
   \<and> trace_value (Suc (Suc (Suc (Suc n)))) ex (PLambda [''x'', ''y''] ternary_stream cv)
        wrap_str include_id
      = Inr ''a lambda function passing 'x', 'y' to: x if x > y else y''"
proof -
  have "fst (parse_instructions ex cv (snd (alloc empty_store ternary_stream)) 0)
     = Inr (Condition (VarWrap (PStr ''x'')) (VarWrap (PStr ''y''))
              (Command (VarWrap (PStr ''x'')) (VarWrap (PStr ''y'')) ''>''))"
    by (rule ternary_parse) (simp add: alloc_def empty_store_def)
  then show ?thesis
    by (simp add: ternary_parse on_ok_def alloc_def empty_store_def params_text_def squote_def)
qed

theorem ternary_is_reconstructed_witness:
  "cells (store_of ternary_stream) 0 = ternary_stream
   \<and> fst (parse_instructions bare_ext no_names (store_of ternary_stream) 0)
       = Inr (Condition (VarWrap (PStr ''x'')) (VarWrap (PStr ''y''))
                (Command (VarWrap (PStr ''x'')) (VarWrap (PStr ''y'')) ''>''))
   \<and> trace_value 1000 bare_ext (PLambda [''x'', ''y''] ternary_stream no_names) True True
       = Inr ''a lambda function passing 'x', 'y' to: x if x > y else y''"
  using ternary_is_reconstructed [of "store_of ternary_stream" 0 bare_ext no_names 996 True True]
  by (simp add: store_of_def alloc_def empty_store_def)

subsection \<open>Streams that raise\<close>

lemma attribute_chain_raises:
  "getattr ex PNone (PStr ''b'') = Inl AttributeError \<Longrightarrow>
   fst (parse_instructions ex no_names (store_of attribute_chain_stream) 0) = Inl AttributeError"
  by (simp add: parse_defs parse_loop.simps attribute_chain_stream_def step_function_ref_def
      fold_attrs.simps resolve_def no_names_def)

lemma attribute_chain_trace:
  "getattr ex PNone (PStr ''b'') = Inl AttributeError \<Longrightarrow>
   trace_value (Suc n) ex (PLambda [''x''] attribute_chain_stream no_names) wrap_str include_id
     = Inl AttributeError"
  using attribute_chain_raises [of ex]
  by (simp add: on_ok_def store_of_def alloc_def empty_store_def)

text \<open>
  C1. The reconstructor does not return \<open>None\<close> on every stream it cannot handle. For
  \<open>lambda x: x.a.b\<close> the \<open>LOAD_ATTR\<close> branch resolves \<open>a\<close> in the scope to \<open>None\<close>
  and folds the next \<open>LOAD_ATTR\<close> with \<open>getattr(None, 'b')\<close>: the \<open>AttributeError\<close>
  leaves \<open>_parse_instructions\<close> and \<open>_trace_value\<close>. The stream that holds only a
  \<open>POP_JUMP_IF_FALSE\<close> raises \<open>IndexError\<close> from \<open>args.pop()\<close>.
\<close>

theorem unhandled_streams_raise:
  "fst (parse_instructions bare_ext no_names (store_of attribute_chain_stream) 0) = Inl AttributeError
   \<and> trace_value 1000 bare_ext (PLambda [''x''] attribute_chain_stream no_names) True True
       = Inl AttributeError
   \<and> fst (parse_instructions bare_ext no_names
            (store_of [Instruction ''POP_JUMP_IF_FALSE'' (PInt 4)]) 0) = Inl IndexError"
proof -
  have g: "getattr bare_ext PNone (PStr ''b'') = Inl AttributeError"
    by (simp add: bare_ext_def)
  have "fst (parse_instructions bare_ext no_names
            (store_of [Instruction ''POP_JUMP_IF_FALSE'' (PInt 4)]) 0) = Inl IndexError"
    by (simp add: parse_defs parse_loop.simps)
  with attribute_chain_raises [OF g] attribute_chain_trace [OF g, of 999 True True]
  show ?thesis by simp
qed

subsection \<open>Parse failure\<close>

lemma parse_from_passed_state:
  "passes ex cv (start_state h a) st \<Longrightarrow>
   fst (parse_instructions ex cv h a) = fst (parse_loop ex cv st)"
  by (simp add: parse_instructions_start passes_parse_loop)

lemma step_at:
  "list_index (working st) (idx st) = Inr instruction \<Longrightarrow>
   step ex cv st = (if opname instruction = ''RETURN_VALUE'' then step_return st
                    else step_other ex cv instruction st)"
  by (simp add: step_def and_then_def get_state_def instructions_at_def)

lemma unsupported_opcode:
  assumes "idx st < int (length (working st))" "list_index (working st) (idx st) = Inr instruction"
    and "opname instruction \<notin> set supported_opnames"
    and "\<not> startswith (opname instruction) ''BINARY_''"
    and "\<not> startswith (opname instruction) ''INPLACE_''"
  shows "fst (parse_loop ex cv st) = Inr PNone"
  using assms
  by (subst parse_loop.simps)
    (simp add: step_at step_other_def is_plain_deref_def and_then_def ret_def supported_opnames_def)

lemma binary_not_tested_before:
  assumes "startswith op ''BINARY_'' \<or> startswith op ''INPLACE_''"
  shows "op \<notin> set supported_opnames"
  using assms by (auto simp: startswith_def supported_opnames_def)

lemma unknown_binary_mnemonic:
  assumes "idx st < int (length (working st))" "list_index (working st) (idx st) = Inr instruction"
    and "startswith (opname instruction) ''BINARY_'' \<or> startswith (opname instruction) ''INPLACE_''"
    and "map_of CommandTable (strip_prefix (strip_prefix (opname instruction) ''BINARY_'') ''INPLACE_'')
           = None"
  shows "fst (parse_loop ex cv st) = Inr PNone"
proof -
  have "opname instruction \<notin> set supported_opnames"
    using assms(3) by (rule binary_not_tested_before)
  then have other: "step ex cv st = step_command instruction st"
    using assms(2,3)
    by (auto simp: step_at step_other_def is_plain_deref_def and_then_def ret_def
        supported_opnames_def)
  have "opname instruction \<noteq> ''COMPARE_OP''"
    using assms(3) by (auto simp: startswith_def)
  then have "step_command instruction st = (Inr ReturnNone, st)"
    using assms(4) by (simp add: step_command_def table_lookup_def and_then_def lift_def ret_def)
  with other assms(1) show ?thesis
    by (subst parse_loop.simps) simp
qed

lemma unknown_comparison:
  assumes "idx st < int (length (working st))" "list_index (working st) (idx st) = Inr instruction"
    and "opname instruction = ''COMPARE_OP''" "argval instruction = PStr s"
    and "map_of CommandTable s = None"
  shows "fst (parse_loop ex cv st) = Inr PNone"
proof -
  have "step ex cv st = step_command instruction st"
    using assms(2,3)
    by (simp add: step_at step_other_def is_plain_deref_def and_then_def ret_def)
  moreover have "step_command instruction st = (Inr ReturnNone, st)"
    using assms(3,4,5) by (simp add: step_command_def table_lookup_def and_then_def lift_def ret_def)
  ultimately show ?thesis
    using assms(1) by (subst parse_loop.simps) simp
qed

lemma return_with_wrong_stack:
  assumes "idx st < int (length (working st))" "list_index (working st) (idx st) = Inr instruction"
    and "opname instruction = ''RETURN_VALUE''" "conditions st = []" "length (args st) \<noteq> 1"
  shows "fst (parse_loop ex cv st) = Inr PNone"
proof -
  have "step ex cv st = (Inr Break, st)"
    using assms(2,3,4) by (simp add: step_at step_return_def and_then_def get_state_def ret_def)
  with assms(1,4,5) show ?thesis
    by (subst parse_loop.simps) (simp add: finish_def)
qed

lemma end_with_wrong_stack:
  assumes "\<not> idx st < int (length (working st))" "conditions st \<noteq> [] \<or> length (args st) \<noteq> 1"
  shows "fst (parse_loop ex cv st) = Inr PNone"
  using assms by (subst parse_loop.simps) (auto simp: finish_def)

lemma fallback_text:
  assumes "fst (parse_instructions ex cv (snd (alloc empty_store instrs)) (fst (alloc empty_store instrs)))
             = Inr PNone"
  shows "trace_value (Suc n) ex (PLambda var_names instrs cv) wrap_str include_id
           = Inr (''a lambda function passing '' @ params_text var_names)"
  using assms by (cases "alloc empty_store instrs") (simp add: on_ok_def)

text \<open>
  C4. Whenever the walk of \<open>_parse_instructions\<close> comes to an instruction whose opcode
  no branch handles, to a binary or in-place opcode or a comparison whose mnemonic is no
  key of \<open>_CommandTable\<close>, or ends (at a \<open>RETURN_VALUE\<close> with no pending condition, or
  past the last instruction) with pending conditions or with a number of values other
  than one, the function returns \<open>None\<close>. When it returns \<open>None\<close> for the instructions
  of a lambda, the tracer renders the lambda as \<open>a lambda function passing\<close> followed by
  the quoted parameter names (or \<open>no arguments\<close>), with no \<open>to:\<close> clause.
\<close>

theorem parse_failure_gives_fallback:
  "(passes ex cv (start_state h a) st \<and> idx st < int (length (working st))
      \<and> list_index (working st) (idx st) = Inr instruction
      \<and> (opname instruction \<notin> set supported_opnames
            \<and> \<not> startswith (opname instruction) ''BINARY_''
            \<and> \<not> startswith (opname instruction) ''INPLACE_''
          \<or> (startswith (opname instruction) ''BINARY_'' \<or> startswith (opname instruction) ''INPLACE_'')
            \<and> map_of CommandTable
                 (strip_prefix (strip_prefix (opname instruction) ''BINARY_'') ''INPLACE_'') = None
          \<or> opname instruction = ''COMPARE_OP'' \<and> argval instruction = PStr s
            \<and> map_of CommandTable s = None
          \<or> opname instruction = ''RETURN_VALUE'' \<and> conditions st = [] \<and> length (args st) \<noteq> 1)
      \<longrightarrow> fst (parse_instructions ex cv h a) = Inr PNone)
   \<and> (passes ex cv (start_state h a) st \<and> \<not> idx st < int (length (working st))
        \<and> (conditions st \<noteq> [] \<or> length (args st) \<noteq> 1)
      \<longrightarrow> fst (parse_instructions ex cv h a) = Inr PNone)
   \<and> (fst (parse_instructions ex cv (snd (alloc empty_store instrs)) (fst (alloc empty_store instrs)))
         = Inr PNone
      \<longrightarrow> trace_value (Suc n) ex (PLambda var_names instrs cv) wrap_str include_id
           = Inr (''a lambda function passing '' @ params_text var_names))
   \<and> params_text [] = ''no arguments''
   \<and> params_text [''x'', ''y''] = squote @ ''x'' @ squote @ '', '' @ squote @ ''y'' @ squote"
proof (intro conjI impI)
  assume "passes ex cv (start_state h a) st \<and> idx st < int (length (working st))
      \<and> list_index (working st) (idx st) = Inr instruction
      \<and> (opname instruction \<notin> set supported_opnames
            \<and> \<not> startswith (opname instruction) ''BINARY_''
            \<and> \<not> startswith (opname instruction) ''INPLACE_''
          \<or> (startswith (opname instruction) ''BINARY_'' \<or> startswith (opname instruction) ''INPLACE_'')
            \<and> map_of CommandTable
                 (strip_prefix (strip_prefix (opname instruction) ''BINARY_'') ''INPLACE_'') = None
          \<or> opname instruction = ''COMPARE_OP'' \<and> argval instruction = PStr s
            \<and> map_of CommandTable s = None
          \<or> opname instruction = ''RETURN_VALUE'' \<and> conditions st = [] \<and> length (args st) \<noteq> 1)"
  then have p: "passes ex cv (start_state h a) st" and more: "idx st < int (length (working st))"
    and at: "list_index (working st) (idx st) = Inr instruction"
    and cases: "opname instruction \<notin> set supported_opnames
            \<and> \<not> startswith (opname instruction) ''BINARY_''
            \<and> \<not> startswith (opname instruction) ''INPLACE_''
          \<or> (startswith (opname instruction) ''BINARY_'' \<or> startswith (opname instruction) ''INPLACE_'')
            \<and> map_of CommandTable
                 (strip_prefix (strip_prefix (opname instruction) ''BINARY_'') ''INPLACE_'') = None
          \<or> opname instruction = ''COMPARE_OP'' \<and> argval instruction = PStr s
            \<and> map_of CommandTable s = None
          \<or> opname instruction = ''RETURN_VALUE'' \<and> conditions st = [] \<and> length (args st) \<noteq> 1"
    by simp_all
  from cases have "fst (parse_loop ex cv st) = Inr PNone"
    using unsupported_opcode [OF more at] unknown_binary_mnemonic [OF more at]
      unknown_comparison [OF more at] return_with_wrong_stack [OF more at]
    by blast
  with p show "fst (parse_instructions ex cv h a) = Inr PNone"
    by (simp add: parse_from_passed_state)
next
  assume "passes ex cv (start_state h a) st \<and> \<not> idx st < int (length (working st))
        \<and> (conditions st \<noteq> [] \<or> length (args st) \<noteq> 1)"
  then have p: "passes ex cv (start_state h a) st"
    and "fst (parse_loop ex cv st) = Inr PNone"
    using end_with_wrong_stack [of st ex cv] by simp_all
  then show "fst (parse_instructions ex cv h a) = Inr PNone"
    by (simp add: parse_from_passed_state)
next
  assume "fst (parse_instructions ex cv (snd (alloc empty_store instrs)) (fst (alloc empty_store instrs)))
         = Inr PNone"
  then show "trace_value (Suc n) ex (PLambda var_names instrs cv) wrap_str include_id
           = Inr (''a lambda function passing '' @ params_text var_names)"
    by (rule fallback_text)
next
  show "params_text [] = ''no arguments''"
    by (simp add: params_text_def)
next
  show "params_text [''x'', ''y''] = squote @ ''x'' @ squote @ '', '' @ squote @ ''y'' @ squote"
    by (simp add: params_text_def squote_def)
qed

lemma negation_passes:
  "passes bare_ext no_names (start_state (store_of negation_stream) 0) negation_state"
proof (rule passes.round)
  show "idx (start_state (store_of negation_stream) 0)
          < int (length (working (start_state (store_of negation_stream) 0)))"
    by (simp add: start_state_def parse_defs negation_stream_def)
next
  show "step bare_ext no_names (start_state (store_of negation_stream) 0)
          = (Inr Next, negation_state\<lparr>idx := 0\<rparr>)"
    by (simp add: start_state_def parse_defs negation_stream_def negation_state_def)
next
  have "negation_state\<lparr>idx := 0, idx := idx (negation_state\<lparr>idx := 0\<rparr>) + 1\<rparr> = negation_state"
    by (simp add: negation_state_def)
  then show "passes bare_ext no_names
      (negation_state\<lparr>idx := 0, idx := idx (negation_state\<lparr>idx := 0\<rparr>) + 1\<rparr>) negation_state"
    by (simp add: passes.here)
qed

lemma membership_passes:
  "passes bare_ext no_names (start_state (store_of membership_stream) 0) membership_state"
proof (rule passes.round)
  show "idx (start_state (store_of membership_stream) 0)
          < int (length (working (start_state (store_of membership_stream) 0)))"
    by (simp add: start_state_def parse_defs membership_stream_def)
next
  show "step bare_ext no_names (start_state (store_of membership_stream) 0)
          = (Inr Next, membership_state\<lparr>args := [VarWrap (PStr ''x'')], idx := 0\<rparr>)"
    by (simp add: start_state_def parse_defs membership_stream_def membership_state_def)
next
  show "passes bare_ext no_names
      (membership_state\<lparr>args := [VarWrap (PStr ''x'')], idx := 0,
         idx := idx (membership_state\<lparr>args := [VarWrap (PStr ''x'')], idx := 0\<rparr>) + 1\<rparr>)
      membership_state"
  proof (rule passes.round)
    show "idx (membership_state\<lparr>args := [VarWrap (PStr ''x'')], idx := 0,
         idx := idx (membership_state\<lparr>args := [VarWrap (PStr ''x'')], idx := 0\<rparr>) + 1\<rparr>)
       < int (length (working (membership_state\<lparr>args := [VarWrap (PStr ''x'')], idx := 0,
         idx := idx (membership_state\<lparr>args := [VarWrap (PStr ''x'')], idx := 0\<rparr>) + 1\<rparr>)))"
      by (simp add: parse_defs membership_stream_def membership_state_def)
  next
    show "step bare_ext no_names (membership_state\<lparr>args := [VarWrap (PStr ''x'')], idx := 0,
         idx := idx (membership_state\<lparr>args := [VarWrap (PStr ''x'')], idx := 0\<rparr>) + 1\<rparr>)
       = (Inr Next, membership_state\<lparr>idx := 1\<rparr>)"
      by (simp add: parse_defs membership_stream_def membership_state_def)
  next
    have "membership_state\<lparr>idx := 1, idx := idx (membership_state\<lparr>idx := 1\<rparr>) + 1\<rparr> = membership_state"
      by (simp add: membership_state_def)
    then show "passes bare_ext no_names
        (membership_state\<lparr>idx := 1, idx := idx (membership_state\<lparr>idx := 1\<rparr>) + 1\<rparr>) membership_state"
      by (simp add: passes.here)
  qed
qed

theorem parse_failure_gives_fallback_witness:
  "passes bare_ext no_names (start_state (store_of negation_stream) 0) negation_state
   \<and> list_index (working negation_state) (idx negation_state) = Inr (Instruction ''UNARY_NEGATIVE'' PNone)
   \<and> fst (parse_instructions bare_ext no_names (store_of negation_stream) 0) = Inr PNone
   \<and> trace_value 1000 bare_ext (PLambda [''x''] negation_stream no_names) True True
       = Inr (''a lambda function passing '' @ squote @ ''x'' @ squote)
   \<and> passes bare_ext no_names (start_state (store_of membership_stream) 0) membership_state
   \<and> list_index (working membership_state) (idx membership_state)
       = Inr (Instruction ''COMPARE_OP'' (PStr ''in''))
   \<and> fst (parse_instructions bare_ext no_names (store_of membership_stream) 0) = Inr PNone
   \<and> passes bare_ext no_names (start_state (store_of []) 0) (start_state (store_of []) 0)
   \<and> length (args (start_state (store_of []) 0)) = 0
   \<and> fst (parse_instructions bare_ext no_names (store_of []) 0) = Inr PNone"
proof -
  have at1: "list_index (working negation_state) (idx negation_state)
      = Inr (Instruction ''UNARY_NEGATIVE'' PNone)"
    by (simp add: negation_state_def negation_stream_def working_def list_index_def)
  have r1: "fst (parse_instructions bare_ext no_names (store_of negation_stream) 0) = Inr PNone"
    using parse_failure_gives_fallback [of bare_ext no_names "store_of negation_stream" 0
        negation_state "Instruction ''UNARY_NEGATIVE'' PNone"] negation_passes at1
    by (simp add: supported_opnames_def startswith_def negation_state_def negation_stream_def
        working_def)
  have "alloc empty_store negation_stream = (0, store_of negation_stream)"
    by (simp add: store_of_def alloc_def empty_store_def)
  with r1 have t1: "trace_value 1000 bare_ext (PLambda [''x''] negation_stream no_names) True True
       = Inr (''a lambda function passing '' @ squote @ ''x'' @ squote)"
    using parse_failure_gives_fallback [of bare_ext no_names _ _ _ _ _ negation_stream 999 "[''x'']"
        True True]
    by (simp add: params_text_def)
  have at2: "list_index (working membership_state) (idx membership_state)
       = Inr (Instruction ''COMPARE_OP'' (PStr ''in''))"
    by (simp add: membership_state_def membership_stream_def working_def list_index_def)
  have r2: "fst (parse_instructions bare_ext no_names (store_of membership_stream) 0) = Inr PNone"
    using parse_failure_gives_fallback [of bare_ext no_names "store_of membership_stream" 0
        membership_state "Instruction ''COMPARE_OP'' (PStr ''in'')" "''in''"] membership_passes at2
    by (simp add: CommandTable_def membership_state_def membership_stream_def working_def)
  have r3: "fst (parse_instructions bare_ext no_names (store_of []) 0) = Inr PNone"
    using parse_failure_gives_fallback [of bare_ext no_names "store_of []" 0
        "start_state (store_of []) 0"]
    by (simp add: passes.here start_state_def store_of_def alloc_def empty_store_def working_def)
  show ?thesis
    using negation_passes at1 r1 t1 membership_passes at2 r2 r3
    by (simp add: passes.here start_state_def)
qed

end
